theory Spec2Isabelle
  imports Main "HOL-Library.AList"
begin

section \<open>Values, field mappings and errors\<close>

text \<open>
  The values a record field or a document field can hold: Python's \<open>None\<close>, booleans,
  unbounded integers, strings, \<open>datetime\<close> values (as a point on a time line), lists, and
  the store's \<open>SERVER_TIMESTAMP\<close> sentinel, which the live store replaces by its own time
  when a document is written.
\<close>

datatype val =
    VNone
  | VBool bool
  | VInt int
  | VStr string
  | VTime nat
  | VList "val list"
  | VServerTimestamp

text \<open>
  A field mapping (a Python \<open>dict\<close> from field name to value) is an association list in
  insertion order; \<open>AList.update\<close> is the item assignment \<open>d[k] = v\<close> (in place when the
  key is there, appended otherwise), \<open>map_of\<close> is \<open>d.get(k)\<close> and \<open>AList.delete\<close> is
  \<open>d.pop(k, None)\<close>.
\<close>

type_synonym doc = "(string \<times> val) list"

datatype error =
    ValueError
  | TypeError
  | ValidationError
  | AlreadyExists
  | InvalidArgument

text \<open>Python truthiness, as \<open>or\<close>, \<open>and\<close>, \<open>not\<close> and \<open>if\<close> read a value.\<close>

fun truthy :: "val \<Rightarrow> bool" where
  "truthy VNone = False"
| "truthy (VBool b) = b"
| "truthy (VInt i) = (i \<noteq> 0)"
| "truthy (VStr s) = (s \<noteq> [])"
| "truthy (VTime t) = True"
| "truthy (VList xs) = (xs \<noteq> [])"
| "truthy VServerTimestamp = True"

text \<open>Python's \<open>==\<close> on these values: a boolean equals the integer 0 or 1 it stands for.\<close>

fun py_eq :: "val \<Rightarrow> val \<Rightarrow> bool" where
  "py_eq VNone VNone = True"
| "py_eq (VBool a) (VBool b) = (a = b)"
| "py_eq (VBool a) (VInt j) = ((if a then 1 else 0) = j)"
| "py_eq (VInt i) (VBool b) = (i = (if b then 1 else 0))"
| "py_eq (VInt i) (VInt j) = (i = j)"
| "py_eq (VStr s) (VStr t) = (s = t)"
| "py_eq (VTime a) (VTime b) = (a = b)"
| "py_eq (VList xs) (VList ys) = list_all2 py_eq xs ys"
| "py_eq VServerTimestamp VServerTimestamp = True"
| "py_eq _ _ = False"

definition is_substring :: "string \<Rightarrow> string \<Rightarrow> bool" where
  "is_substring t s = list_ex (\<lambda>k. take (length t) (drop k s) = t) [0..<Suc (length s)]"

text \<open>
  Python's \<open>value in container\<close>: membership by \<open>==\<close> in a list, substring test in a
  string (whose left operand must be a string), \<open>TypeError\<close> on a value that is not
  iterable.
\<close>

fun py_in :: "val \<Rightarrow> val \<Rightarrow> error + bool" where
  "py_in v (VList xs) = Inr (list_ex (\<lambda>x. py_eq x v) xs)"
| "py_in (VStr t) (VStr s) = Inr (is_substring t s)"
| "py_in _ _ = Inl TypeError"

section \<open>Records and record classes\<close>

text \<open>
  An instance of \<open>BaseFirebaseModel\<close>: the three fields the base class declares and, in
  declaration order, the fields of the concrete class. Assignment does no validation,
  so every field holds a value of any kind.
\<close>

record model =
  id_m :: val
  created_at :: val
  updated_at :: val
  extra_fields :: doc

text \<open>\<open>self.dict()\<close> and \<open>self.dict(exclude=...)\<close>.\<close>

definition model_dict :: "model \<Rightarrow> doc" where
  "model_dict self =
     (''id'', id_m self) # (''created_at'', created_at self) #
     (''updated_at'', updated_at self) # extra_fields self"

definition model_dict_exclude :: "string list \<Rightarrow> model \<Rightarrow> doc" where
  "model_dict_exclude excl self = filter (\<lambda>(k, v). k \<notin> set excl) (model_dict self)"

text \<open>
  \<open>setattr(self, key, value)\<close>: the value is stored as it is; a name that is not a
  field of the record raises \<open>ValueError\<close>.
\<close>

definition setattr_m :: "model \<Rightarrow> string \<Rightarrow> val \<Rightarrow> error + model" where
  "setattr_m self key v =
     (if key = ''id'' then Inr (self\<lparr>id_m := v\<rparr>)
      else if key = ''created_at'' then Inr (self\<lparr>created_at := v\<rparr>)
      else if key = ''updated_at'' then Inr (self\<lparr>updated_at := v\<rparr>)
      else if key \<in> fst ` set (extra_fields self)
        then Inr (self\<lparr>extra_fields := AList.update key v (extra_fields self)\<rparr>)
      else Inl ValueError)"

text \<open>
  A record class: the plural of its name (\<open>p.plural(cls.__name__)\<close>), its
  \<open>__collection_name__\<close>, the default of a declared field \<open>collection_name\<close> (none when
  the class declares no such field or its default is \<open>None\<close>), and its constructor
  \<open>cls(**data)\<close>, which validates a field mapping.
\<close>

record model_class =
  cls_name_plural :: string
  cls_collection_name :: string
  cls_collection_field :: "string option"
  cls_init :: "doc \<Rightarrow> error + model"

definition get_collection_name :: "model_class \<Rightarrow> string" where
  "get_collection_name cls =
     (if cls_collection_name cls \<noteq> [] then cls_collection_name cls else cls_name_plural cls)"

text \<open>
  The constructor of a class that declares the fields \<open>names\<close> after the three of the
  base class: \<open>id\<close> is \<open>Optional[str]\<close>, the two timestamps are \<open>Optional[datetime]\<close>,
  all three default to \<open>None\<close>; the declared fields are required and take any value;
  keys that are no field are ignored. A base field of another kind of value is
  rejected here.
\<close>

definition optional_str :: "val option \<Rightarrow> error + val" where
  "optional_str x =
     (case x of None \<Rightarrow> Inr VNone | Some VNone \<Rightarrow> Inr VNone | Some (VStr s) \<Rightarrow> Inr (VStr s)
      | Some _ \<Rightarrow> Inl ValidationError)"

definition optional_datetime :: "val option \<Rightarrow> error + val" where
  "optional_datetime x =
     (case x of None \<Rightarrow> Inr VNone | Some VNone \<Rightarrow> Inr VNone | Some (VTime t) \<Rightarrow> Inr (VTime t)
      | Some _ \<Rightarrow> Inl ValidationError)"

fun required_fields :: "string list \<Rightarrow> doc \<Rightarrow> error + doc" where
  "required_fields [] data = Inr []"
| "required_fields (n # ns) data =
     (case map_of data n of
        None \<Rightarrow> Inl ValidationError
      | Some v \<Rightarrow> (case required_fields ns data of Inl e \<Rightarrow> Inl e | Inr fs \<Rightarrow> Inr ((n, v) # fs)))"

definition declared_init :: "string list \<Rightarrow> doc \<Rightarrow> error + model" where
  "declared_init names data =
     (case optional_str (map_of data ''id'') of
        Inl e \<Rightarrow> Inl e
      | Inr i \<Rightarrow>
         (case optional_datetime (map_of data ''created_at'') of
            Inl e \<Rightarrow> Inl e
          | Inr c \<Rightarrow>
             (case optional_datetime (map_of data ''updated_at'') of
                Inl e \<Rightarrow> Inl e
              | Inr u \<Rightarrow>
                 (case required_fields names data of
                    Inl e \<Rightarrow> Inl e
                  | Inr fs \<Rightarrow>
                      Inr \<lparr>id_m = i, created_at = c, updated_at = u, extra_fields = fs\<rparr>))))"

definition declared_class :: "string \<Rightarrow> string list \<Rightarrow> model_class" where
  "declared_class plural names =
     \<lparr>cls_name_plural = plural, cls_collection_name = [], cls_collection_field = None,
      cls_init = declared_init names\<rparr>"

text \<open>\<open>[cls(**doc) for doc in docs]\<close>: the first failing construction raises.\<close>

fun build_all :: "model_class \<Rightarrow> doc list \<Rightarrow> error + model list" where
  "build_all cls [] = Inr []"
| "build_all cls (d # ds) =
     (case cls_init cls d of
        Inl e \<Rightarrow> Inl e
      | Inr m \<Rightarrow> (case build_all cls ds of Inl e \<Rightarrow> Inl e | Inr ms \<Rightarrow> Inr (m # ms)))"

section \<open>The in-memory store\<close>

text \<open>
  Modelled from the spec: \<open>cache_handler\<close> (module \<open>fireorm.cache\<close>) is not among the
  source files. The spec describes it as a process-local mapping from collection name
  to a mapping from document id to field mapping, with exact-match lookup by id and
  linear-scan filtering by equality and membership-in-list. The inner mapping keeps
  insertion order, as a Python \<open>dict\<close> does.
\<close>

type_synonym cache_t = "string \<Rightarrow> (val \<times> doc) list"

definition get_document :: "cache_t \<Rightarrow> string \<Rightarrow> val \<Rightarrow> doc option" where
  "get_document c coll i = map_of (c coll) i"

definition add_document :: "cache_t \<Rightarrow> string \<Rightarrow> val \<Rightarrow> doc \<Rightarrow> cache_t" where
  "add_document c coll i d = c(coll := AList.update i d (c coll))"

definition update_document :: "cache_t \<Rightarrow> string \<Rightarrow> val \<Rightarrow> doc \<Rightarrow> cache_t" where
  "update_document c coll i d = c(coll := AList.update i d (c coll))"

definition list_collection :: "cache_t \<Rightarrow> string \<Rightarrow> doc list" where
  "list_collection c coll = map snd (c coll)"

definition matches_param :: "doc \<Rightarrow> string \<times> val \<Rightarrow> bool" where
  "matches_param d p =
     (case map_of d (fst p) of
        None \<Rightarrow> False
      | Some x \<Rightarrow> (case snd p of VList vs \<Rightarrow> list_ex (py_eq x) vs | v \<Rightarrow> py_eq x v))"

definition query_collection :: "cache_t \<Rightarrow> string \<Rightarrow> doc option \<Rightarrow> doc list" where
  "query_collection c coll query_params =
     (case query_params of
        None \<Rightarrow> list_collection c coll
      | Some ps \<Rightarrow> filter (\<lambda>d. list_all (matches_param d) ps) (list_collection c coll))"

section \<open>The live store\<close>

text \<open>
  Modelled from the spec: the document-database client \<open>db\<close> is an external
  collaborator. What the record layer uses of it: get by id, add with a generated id,
  set with merge, queries with equality, membership and array-contains predicates
  under offset and limit, and the replacement of the timestamp sentinel by the
  store's time on every write. A collection lists its documents in the order the
  store streams them; adding under an id that is taken fails, and a document
  reference takes a string id only.
\<close>

type_synonym firestore = "string \<Rightarrow> (string \<times> doc) list"

definition resolve_timestamps :: "nat \<Rightarrow> doc \<Rightarrow> doc" where
  "resolve_timestamps now d = map (\<lambda>(k, v). (k, if v = VServerTimestamp then VTime now else v)) d"

definition db_get :: "firestore \<Rightarrow> string \<Rightarrow> string \<Rightarrow> doc option" where
  "db_get store coll i = map_of (store coll) i"

definition db_add :: "firestore \<Rightarrow> string \<Rightarrow> string \<Rightarrow> doc \<Rightarrow> nat \<Rightarrow> error + firestore" where
  "db_add store coll new_id d now =
     (if new_id \<in> fst ` set (store coll) then Inl AlreadyExists
      else Inr (store(coll := store coll @ [(new_id, resolve_timestamps now d)])))"

definition db_set_merge :: "firestore \<Rightarrow> string \<Rightarrow> string \<Rightarrow> doc \<Rightarrow> nat \<Rightarrow> firestore" where
  "db_set_merge store coll i d now =
     (case map_of (store coll) i of
        None \<Rightarrow> store(coll := store coll @ [(i, resolve_timestamps now d)])
      | Some old \<Rightarrow>
          store(coll := AList.update i (AList.merge old (resolve_timestamps now d)) (store coll)))"

definition array_contains_param :: "doc \<Rightarrow> string \<times> val \<Rightarrow> bool" where
  "array_contains_param d p =
     (case map_of d (fst p) of Some (VList xs) \<Rightarrow> list_ex (\<lambda>x. py_eq x (snd p)) xs | _ \<Rightarrow> False)"

definition db_query :: "firestore \<Rightarrow> string \<Rightarrow> doc \<Rightarrow> doc \<Rightarrow> (string \<times> doc) list" where
  "db_query store coll wheres contains =
     filter (\<lambda>(i, d). list_all (matches_param d) wheres \<and> list_all (array_contains_param d) contains)
       (store coll)"

text \<open>\<open>query.offset(start).limit(page_size).stream()\<close>: the store rejects a negative offset or limit.\<close>

definition db_stream :: "(string \<times> doc) list \<Rightarrow> int \<Rightarrow> int \<Rightarrow> error + (string \<times> doc) list" where
  "db_stream found offset limit =
     (if offset < 0 \<or> limit < 0 then Inl InvalidArgument
      else Inr (take (nat limit) (drop (nat offset) found)))"

section \<open>The state the operations run in\<close>

text \<open>
  The ambient flag \<open>config.test_mode\<close>, the two stores, the live store's clock and the
  ids it generates, the draws of the random generator, and the string lists that are
  passed by reference (an explicit store from addresses to lists). Address
  \<open>merge_default_exclude_props\<close> holds the list object that is the default value of
  \<open>merge\<close>'s parameter \<open>exclude_props\<close>, created once when the method is defined.
\<close>

record world =
  config_test_mode :: bool
  cache :: cache_t
  db :: firestore
  server_time :: nat
  auto_ids :: "nat \<Rightarrow> string"
  autos_used :: nat
  random_draws :: "nat \<Rightarrow> nat"
  draws_used :: nat
  lists :: "nat \<Rightarrow> string list"

definition merge_default_exclude_props :: nat where
  "merge_default_exclude_props = 0"

definition resolve_test_mode :: "world \<Rightarrow> bool option \<Rightarrow> bool" where
  "resolve_test_mode w test_mode = (case test_mode of None \<Rightarrow> config_test_mode w | Some b \<Rightarrow> b)"

section \<open>Identifier generation\<close>

definition id_alphabet :: string where
  "id_alphabet = ''abcdefghijklmnopqrstuvwxyz0123456789''"

text \<open>
  \<open>random.choices(alphabet, k=20)\<close>: twenty independent draws of an index into the
  alphabet, joined into a string.
\<close>

definition generate_fake_firebase_id :: "world \<Rightarrow> string \<times> world" where
  "generate_fake_firebase_id w =
     (map (\<lambda>k. id_alphabet ! (random_draws w (draws_used w + k) mod length id_alphabet)) [0..<20],
      w\<lparr>draws_used := draws_used w + 20\<rparr>)"

section \<open>Class-level reads\<close>

text \<open>
  \<open>get_by_id\<close>: in test mode the cached field mapping, when there is one and it is
  not empty, is turned into a record; in live mode the snapshot's data, without its
  own \<open>id\<close> entry, is turned into a record under the snapshot's id when the document
  exists. The result \<open>Inr None\<close> is Python's \<open>None\<close>; \<open>Inl\<close> is a raised exception.
\<close>

definition get_by_id ::
  "model_class \<Rightarrow> string \<Rightarrow> bool option \<Rightarrow> world \<Rightarrow> error + model option" where
  "get_by_id cls doc_id test_mode w =
     (let collection_name = get_collection_name cls in
      if resolve_test_mode w test_mode then
        (case get_document (cache w) collection_name (VStr doc_id) of
           None \<Rightarrow> Inr None
         | Some doc_data \<Rightarrow>
             if doc_data \<noteq> [] then map_sum (\<lambda>e. e) Some (cls_init cls doc_data) else Inr None)
      else
        (case db_get (db w) collection_name doc_id of
           None \<Rightarrow> Inr None
         | Some data \<Rightarrow>
             (let data' = (if data \<noteq> [] then AList.delete ''id'' data else data)
              in map_sum (\<lambda>e. e) Some (cls_init cls ((''id'', VStr doc_id) # data')))))"

text \<open>The loop of \<open>get_by_ids\<close> over the cache, appending to \<open>documents\<close>.\<close>

fun get_by_ids_cached ::
  "model_class \<Rightarrow> cache_t \<Rightarrow> string \<Rightarrow> string list \<Rightarrow> model list \<Rightarrow> error + model list" where
  "get_by_ids_cached cls c collection_name [] documents = Inr documents"
| "get_by_ids_cached cls c collection_name (doc_id # doc_ids) documents =
     (case get_document c collection_name (VStr doc_id) of
        None \<Rightarrow> get_by_ids_cached cls c collection_name doc_ids documents
      | Some doc_data \<Rightarrow>
          if doc_data \<noteq> [] then
            (case cls_init cls doc_data of
               Inl e \<Rightarrow> Inl e
             | Inr m \<Rightarrow> get_by_ids_cached cls c collection_name doc_ids (documents @ [m]))
          else get_by_ids_cached cls c collection_name doc_ids documents)"

text \<open>
  The loop over the snapshots of \<open>db.get_all\<close>, taken in the order of the references
  asked for; a missing document has no data and is skipped.
\<close>

fun get_by_ids_live ::
  "model_class \<Rightarrow> firestore \<Rightarrow> string \<Rightarrow> string list \<Rightarrow> model list \<Rightarrow> error + model list" where
  "get_by_ids_live cls store collection_name [] documents = Inr documents"
| "get_by_ids_live cls store collection_name (doc_id # doc_ids) documents =
     (case db_get store collection_name doc_id of
        None \<Rightarrow> get_by_ids_live cls store collection_name doc_ids documents
      | Some data \<Rightarrow>
          if data \<noteq> [] then
            (case cls_init cls ((''id'', VStr doc_id) # AList.delete ''id'' data) of
               Inl e \<Rightarrow> Inl e
             | Inr m \<Rightarrow> get_by_ids_live cls store collection_name doc_ids (documents @ [m]))
          else get_by_ids_live cls store collection_name doc_ids documents)"

definition get_by_ids ::
  "model_class \<Rightarrow> string list \<Rightarrow> bool option \<Rightarrow> world \<Rightarrow> error + model list" where
  "get_by_ids cls doc_ids test_mode w =
     (let collection_name = get_collection_name cls in
      if resolve_test_mode w test_mode
      then get_by_ids_cached cls (cache w) collection_name doc_ids []
      else get_by_ids_live cls (db w) collection_name doc_ids [])"

subsection \<open>Pages\<close>

text \<open>Python's \<open>xs[start:end]\<close> for arbitrary integers: a negative index counts from the end.\<close>

definition slice_index :: "int \<Rightarrow> int \<Rightarrow> int" where
  "slice_index n i = (if i < 0 then max 0 (n + i) else min i n)"

definition py_slice :: "int \<Rightarrow> int \<Rightarrow> 'a list \<Rightarrow> 'a list" where
  "py_slice start end xs =
     (let n = int (length xs); s = slice_index n start; e = slice_index n end
      in take (nat (e - s)) (drop (nat s) xs))"

text \<open>
  \<open>all(doc.get(key) and value in doc.get(key) for key, value in array_contains.items())\<close>:
  the first pair that is not satisfied stops the scan.
\<close>

fun contains_all :: "doc \<Rightarrow> doc \<Rightarrow> error + bool" where
  "contains_all d [] = Inr True"
| "contains_all d ((key, v) # rest) =
     (case map_of d key of
        None \<Rightarrow> Inr False
      | Some x \<Rightarrow>
          if truthy x then
            (case py_in v x of
               Inl e \<Rightarrow> Inl e
             | Inr b \<Rightarrow> if b then contains_all d rest else Inr False)
          else Inr False)"

fun filter_array_contains :: "doc \<Rightarrow> doc list \<Rightarrow> error + doc list" where
  "filter_array_contains ac [] = Inr []"
| "filter_array_contains ac (d # ds) =
     (case contains_all d ac of
        Inl e \<Rightarrow> Inl e
      | Inr b \<Rightarrow>
          (case filter_array_contains ac ds of
             Inl e \<Rightarrow> Inl e
           | Inr r \<Rightarrow> Inr (if b then d # r else r)))"

text \<open>
  The documents a page is cut from in test mode: the collection as the cache's query
  returns it, narrowed by \<open>array_contains\<close> when that mapping is given and not empty.
\<close>

definition filtered_docs :: "cache_t \<Rightarrow> string \<Rightarrow> doc option \<Rightarrow> doc option \<Rightarrow> error + doc list" where
  "filtered_docs c collection_name query_params array_contains =
     (let all_docs = query_collection c collection_name query_params in
      case array_contains of
        None \<Rightarrow> Inr all_docs
      | Some ac \<Rightarrow> if ac \<noteq> [] then filter_array_contains ac all_docs else Inr all_docs)"

definition snapshot_fields :: "string \<times> doc \<Rightarrow> doc" where
  "snapshot_fields sn = (''id'', VStr (fst sn)) # filter (\<lambda>(k, v). k \<noteq> ''id'') (snd sn)"

definition get_page ::
  "model_class \<Rightarrow> int \<Rightarrow> int \<Rightarrow> doc option \<Rightarrow> doc option \<Rightarrow> bool option \<Rightarrow> world
     \<Rightarrow> error + model list" where
  "get_page cls page page_size query_params array_contains test_mode w =
     (let collection_name = get_collection_name cls;
          start = (page - 1) * page_size;
          end = start + page_size in
      if resolve_test_mode w test_mode then
        (case filtered_docs (cache w) collection_name query_params array_contains of
           Inl e \<Rightarrow> Inl e
         | Inr all_docs \<Rightarrow> build_all cls (py_slice start end all_docs))
      else
        (let wheres = (case query_params of None \<Rightarrow> [] | Some ps \<Rightarrow> ps);
             contains = (case array_contains of None \<Rightarrow> [] | Some ac \<Rightarrow> ac)
         in case db_stream (db_query (db w) collection_name wheres contains) start page_size of
              Inl e \<Rightarrow> Inl e
            | Inr docs \<Rightarrow> build_all cls (map snapshot_fields docs)))"

section \<open>Writes\<close>

text \<open>
  \<open>save\<close> returns the record as the call leaves it together with the new state. In
  live mode the collection is named by the default of a field \<open>collection_name\<close>,
  when the class declares one with a non-empty default, else by the plural of the
  class name.
\<close>

definition save_collection_name :: "model_class \<Rightarrow> string" where
  "save_collection_name cls =
     (case cls_collection_field cls of
        Some d \<Rightarrow> if d \<noteq> [] then d else cls_name_plural cls
      | None \<Rightarrow> cls_name_plural cls)"

definition save ::
  "model_class \<Rightarrow> model \<Rightarrow> bool \<Rightarrow> bool option \<Rightarrow> world \<Rightarrow> error + model \<times> world" where
  "save cls self generate_new_id test_mode w =
     (if resolve_test_mode w test_mode then
        (let collection_name = get_collection_name cls;
             (document_id, w1) =
               (if truthy (id_m self) then (id_m self, w)
                else (let (fake, w') = generate_fake_firebase_id w in (VStr fake, w')));
             w2 = w1\<lparr>cache := add_document (cache w1) collection_name document_id (model_dict self)\<rparr>
         in Inr (self\<lparr>id_m := document_id\<rparr>, w2))
      else
        (let collection_name = save_collection_name cls in
         if \<not> truthy (id_m self) \<or> generate_new_id then
           (let data_to_save = model_dict_exclude [''id'', ''created_at'', ''updated_at''] self;
                data_to_save = AList.update ''created_at'' VServerTimestamp data_to_save;
                data_to_save = AList.update ''updated_at'' VServerTimestamp data_to_save;
                new_id = auto_ids w (autos_used w)
            in case db_add (db w) collection_name new_id data_to_save (server_time w) of
                 Inl e \<Rightarrow> Inl e
               | Inr store \<Rightarrow>
                   Inr (self\<lparr>id_m := VStr new_id\<rparr>, w\<lparr>db := store, autos_used := Suc (autos_used w)\<rparr>))
         else
           (let data_to_save = AList.update ''updated_at'' VServerTimestamp (model_dict self)
            in case id_m self of
                 VStr i \<Rightarrow>
                   Inr (self, w\<lparr>db := db_set_merge (db w) collection_name i data_to_save (server_time w)\<rparr>)
               | _ \<Rightarrow> Inl ValueError)))"

text \<open>
  The loop \<open>for key, value in update_data.items(): if key not in exclude_props:
  setattr(self, key, value)\<close>, which \<open>merge\<close> runs twice in live mode.
\<close>

fun apply_updates :: "string list \<Rightarrow> model \<Rightarrow> doc \<Rightarrow> error + model" where
  "apply_updates exclude_props self [] = Inr self"
| "apply_updates exclude_props self ((key, v) # rest) =
     (if key \<notin> set exclude_props then
        (case setattr_m self key v of
           Inl e \<Rightarrow> Inl e
         | Inr self' \<Rightarrow> apply_updates exclude_props self' rest)
      else apply_updates exclude_props self rest)"

text \<open>
  \<open>merge\<close>: \<open>exclude_props\<close> is the address of the caller's list, or \<open>None\<close> when the
  argument is left out and the default list object is used. In live mode the list at
  that address is extended in place; nothing is written to the live store.
\<close>

definition merge ::
  "model_class \<Rightarrow> model \<Rightarrow> doc \<Rightarrow> bool \<Rightarrow> nat option \<Rightarrow> bool option \<Rightarrow> world
     \<Rightarrow> error + model \<times> world" where
  "merge cls self update_data overwrite_id exclude_props test_mode w =
     (let a = (case exclude_props of None \<Rightarrow> merge_default_exclude_props | Some a \<Rightarrow> a) in
      case apply_updates (lists w a) self update_data of
        Inl e \<Rightarrow> Inl e
      | Inr self1 \<Rightarrow>
          if resolve_test_mode w test_mode then
            Inr (self1,
                 w\<lparr>cache := update_document (cache w) (get_collection_name cls) (id_m self1)
                              (model_dict self1)\<rparr>)
          else
            (let default_exclude = (if \<not> overwrite_id then [''id'', ''created_at''] else [''created_at'']);
                 w1 = w\<lparr>lists := (lists w)(a := lists w a @ default_exclude)\<rparr>
             in case apply_updates (lists w1 a) self1 update_data of
                  Inl e \<Rightarrow> Inl e
                | Inr self2 \<Rightarrow> Inr (self2, w1)))"

section \<open>Observations on the stores\<close>

text \<open>The value of one field of the document stored under an id, in either store.\<close>

definition live_field :: "world \<Rightarrow> string \<Rightarrow> string \<Rightarrow> string \<Rightarrow> val option" where
  "live_field w coll i k = (case db_get (db w) coll i of None \<Rightarrow> None | Some d \<Rightarrow> map_of d k)"

definition cached_field :: "world \<Rightarrow> string \<Rightarrow> val \<Rightarrow> string \<Rightarrow> val option" where
  "cached_field w coll i k =
     (case get_document (cache w) coll i of None \<Rightarrow> None | Some d \<Rightarrow> map_of d k)"

text \<open>
  Calling \<open>get_page\<close> for a run of page numbers and joining the pages: the first call
  that raises ends the run. \<open>page_count n page_size\<close> is the number of pages
  \<open>n\<close> documents fill, the quotient rounded up.
\<close>

fun concat_pages :: "(error + 'a list) list \<Rightarrow> error + 'a list" where
  "concat_pages [] = Inr []"
| "concat_pages (r # rs) =
     (case r of
        Inl e \<Rightarrow> Inl e
      | Inr xs \<Rightarrow> (case concat_pages rs of Inl e \<Rightarrow> Inl e | Inr ys \<Rightarrow> Inr (xs @ ys)))"

definition page_count :: "nat \<Rightarrow> int \<Rightarrow> nat" where
  "page_count n page_size = nat ((int n + page_size - 1) div page_size)"

text \<open>
  A document whose field \<open>tags\<close> is a list, and one whose list \<open>tags\<close> holds a given
  string.
\<close>

definition tags_is_list :: "doc \<Rightarrow> bool" where
  "tags_is_list d = (case map_of d ''tags'' of Some (VList xs) \<Rightarrow> True | _ \<Rightarrow> False)"

definition has_tag :: "string \<Rightarrow> doc \<Rightarrow> bool" where
  "has_tag t d = (case map_of d ''tags'' of Some (VList xs) \<Rightarrow> VStr t \<in> set xs | _ \<Rightarrow> False)"

text \<open>The names \<open>setattr\<close> accepts on a record: its fields.\<close>

definition has_field :: "model \<Rightarrow> string \<Rightarrow> bool" where
  "has_field self k =
     (k = ''id'' \<or> k = ''created_at'' \<or> k = ''updated_at'' \<or> k \<in> fst ` set (extra_fields self))"

section \<open>Example records and states\<close>

definition item_class :: model_class where
  "item_class = declared_class ''Items'' [''name'']"

definition item :: "val \<Rightarrow> string \<Rightarrow> model" where
  "item i n = \<lparr>id_m = i, created_at = VNone, updated_at = VNone, extra_fields = [(''name'', VStr n)]\<rparr>"

definition empty_world :: world where
  "empty_world =
     \<lparr>config_test_mode = True, cache = (\<lambda>_. []), db = (\<lambda>_. []), server_time = 100,
      auto_ids = (\<lambda>n. replicate (Suc n) CHR ''z''), autos_used = 0,
      random_draws = (\<lambda>k. k), draws_used = 0, lists = (\<lambda>_. [])\<rparr>"

definition cached_world :: world where
  "cached_world =
     empty_world\<lparr>cache := (\<lambda>_. [])(''Items'' :=
        [(VStr ''a'', model_dict (item (VStr ''a'') ''first'')),
         (VStr ''c'', model_dict (item (VStr ''c'') ''third''))])\<rparr>"

definition post_class :: model_class where
  "post_class = declared_class ''Posts'' [''tags'']"

definition post :: "string \<Rightarrow> string list \<Rightarrow> model" where
  "post i ts = \<lparr>id_m = VStr i, created_at = VNone, updated_at = VNone,
                extra_fields = [(''tags'', VList (map VStr ts))]\<rparr>"

definition stored_post :: "string \<Rightarrow> string list \<Rightarrow> val \<times> doc" where
  "stored_post i ts = (VStr i, model_dict (post i ts))"

definition tagged_world :: world where
  "tagged_world =
     empty_world\<lparr>cache := (\<lambda>_. [])(''Posts'' :=
        [stored_post ''p1'' [''red'', ''blue''], stored_post ''p2'' [''blue''],
         stored_post ''p3'' [''red''], stored_post ''p4'' []])\<rparr>"

definition red_world :: world where
  "red_world =
     empty_world\<lparr>cache := (\<lambda>_. [])(''Posts'' :=
        map (\<lambda>i. stored_post i [''red''])
          [''a'', ''b'', ''c'', ''d'', ''e'', ''f'', ''g'', ''h'', ''i'', ''j'', ''k''])\<rparr>"

definition stamped_item :: "string \<Rightarrow> string \<Rightarrow> model" where
  "stamped_item i n =
     \<lparr>id_m = VStr i, created_at = VTime 1, updated_at = VTime 1, extra_fields = [(''name'', VStr n)]\<rparr>"

definition stamped_world :: world where
  "stamped_world =
     empty_world\<lparr>cache := (\<lambda>_. [])(''Items'' := [(VStr ''a'', model_dict (stamped_item ''a'' ''old''))]),
                 db := (\<lambda>_. [])(''Items'' := [(''a'', model_dict (stamped_item ''a'' ''old''))])\<rparr>"

definition after_first_merge :: world where
  "after_first_merge = empty_world\<lparr>lists := (\<lambda>_. [])(0 := [''id'', ''created_at''])\<rparr>"

lemmas example_defs =
  item_class_def item_def empty_world_def cached_world_def declared_class_def declared_init_def
  optional_str_def optional_datetime_def model_dict_def get_collection_name_def
  resolve_test_mode_def get_document_def

lemmas post_defs =
  post_class_def post_def stored_post_def tagged_world_def red_world_def empty_world_def
  declared_class_def declared_init_def optional_str_def optional_datetime_def model_dict_def
  get_collection_name_def resolve_test_mode_def list_collection_def query_collection_def
  has_tag_def tags_is_list_def

lemmas write_defs =
  save_def save_collection_name_def generate_fake_firebase_id_def add_document_def
  update_document_def db_add_def db_set_merge_def resolve_timestamps_def model_dict_exclude_def
  live_field_def cached_field_def db_get_def stamped_item_def stamped_world_def id_alphabet_def
  Let_def

lemma example_fake_id:
  "map (\<lambda>k. ''abcdefghijklmnopqrstuvwxyz0123456789'' ! (k mod 36)) [0..<20] = ''abcdefghijklmnopqrst''"
  by code_simp

section \<open>Lookups after a write\<close>

lemma get_document_add_document:
  "get_document (add_document c coll i d) coll i = Some d"
  by (simp add: get_document_def add_document_def update_conv')

lemma get_document_update_document:
  "get_document (update_document c coll i d) coll i = Some d"
  by (simp add: get_document_def update_document_def update_conv')

lemma resolve_timestamps_simps:
  "resolve_timestamps now [] = []"
  "resolve_timestamps now ((k, v) # d) =
     (k, if v = VServerTimestamp then VTime now else v) # resolve_timestamps now d"
  by (simp_all add: resolve_timestamps_def)

lemma map_of_resolve_timestamps:
  "map_of (resolve_timestamps now d) k =
     map_option (\<lambda>v. if v = VServerTimestamp then VTime now else v) (map_of d k)"
proof (induction d)
  case Nil
  show ?case by (simp add: resolve_timestamps_simps)
next
  case (Cons p d)
  obtain k' v where p: "p = (k', v)" by (cases p)
  with Cons show ?case by (simp add: resolve_timestamps_simps)
qed

lemma db_get_db_add:
  assumes "db_add store coll new_id d now = Inr store'"
  shows "db_get store' coll new_id = Some (resolve_timestamps now d)"
proof -
  from assms have fresh: "new_id \<notin> fst ` set (store coll)"
    and s: "store' = store(coll := store coll @ [(new_id, resolve_timestamps now d)])"
    by (auto simp: db_add_def split: if_splits)
  from fresh have "map_of (store coll) new_id = None"
    by (simp add: map_of_eq_None_iff)
  with s show ?thesis by (simp add: db_get_def map_add_def)
qed

lemma db_get_db_set_merge:
  "\<exists>d'. db_get (db_set_merge store coll i d now) coll i = Some d' \<and>
        (\<forall>k v. map_of (resolve_timestamps now d) k = Some v \<longrightarrow> map_of d' k = Some v)"
proof (cases "map_of (store coll) i")
  case None
  then show ?thesis
    by (simp add: db_get_def db_set_merge_def map_add_def)
next
  case (Some old)
  then show ?thesis
    by (simp add: db_get_def db_set_merge_def update_conv' merge_conv' map_add_def)
qed

lemma fake_id_shape:
  "length (fst (generate_fake_firebase_id w)) = 20 \<and>
   set (fst (generate_fake_firebase_id w)) \<subseteq> set id_alphabet"
proof -
  have "id_alphabet ! (n mod length id_alphabet) \<in> set id_alphabet" for n
    by (rule nth_mem) (simp add: id_alphabet_def)
  then show ?thesis
    by (auto simp: generate_fake_firebase_id_def)
qed

section \<open>What \<open>save\<close> does in each mode\<close>

lemma save_test_mode:
  assumes "resolve_test_mode w test_mode"
  shows "\<exists>w'. save cls self generate_new_id test_mode w =
           Inr (self\<lparr>id_m := (if truthy (id_m self) then id_m self
                                else VStr (fst (generate_fake_firebase_id w)))\<rparr>, w') \<and>
         config_test_mode w' = config_test_mode w \<and>
         get_document (cache w') (get_collection_name cls)
            (if truthy (id_m self) then id_m self else VStr (fst (generate_fake_firebase_id w))) =
           Some (model_dict self)"
  using assms
  by (simp add: save_def Let_def generate_fake_firebase_id_def get_document_add_document
      split: prod.splits)

lemma save_live_insert:
  assumes "\<not> resolve_test_mode w test_mode"
    and "\<not> truthy (id_m self) \<or> generate_new_id"
    and "auto_ids w (autos_used w) \<notin> fst ` set (db w (save_collection_name cls))"
  shows "\<exists>w' d. save cls self generate_new_id test_mode w =
           Inr (self\<lparr>id_m := VStr (auto_ids w (autos_used w))\<rparr>, w') \<and>
         db_get (db w') (save_collection_name cls) (auto_ids w (autos_used w)) = Some d \<and>
         map_of d ''created_at'' = Some (VTime (server_time w)) \<and>
         map_of d ''updated_at'' = Some (VTime (server_time w))"
proof -
  let ?data = "AList.update ''updated_at'' VServerTimestamp
      (AList.update ''created_at'' VServerTimestamp
        (model_dict_exclude [''id'', ''created_at'', ''updated_at''] self))"
  let ?new = "auto_ids w (autos_used w)"
  let ?coll = "save_collection_name cls"
  from assms(3) obtain store where
    a: "db_add (db w) ?coll ?new ?data (server_time w) = Inr store"
    by (simp add: db_add_def)
  from db_get_db_add [OF a]
  have g: "db_get store ?coll ?new = Some (resolve_timestamps (server_time w) ?data)" .
  have "map_of (resolve_timestamps (server_time w) ?data) ''created_at'' = Some (VTime (server_time w))"
    and "map_of (resolve_timestamps (server_time w) ?data) ''updated_at'' = Some (VTime (server_time w))"
    by (simp_all add: map_of_resolve_timestamps update_conv')
  with assms(1,2) a g show ?thesis
    by (auto simp: save_def Let_def)
qed

lemma save_live_update:
  assumes "\<not> resolve_test_mode w test_mode"
    and "id_m self = VStr i" and "i \<noteq> []" and "\<not> generate_new_id"
  shows "\<exists>w' d. save cls self generate_new_id test_mode w = Inr (self, w') \<and>
         db_get (db w') (save_collection_name cls) i = Some d \<and>
         map_of d ''updated_at'' = Some (VTime (server_time w)) \<and>
         (created_at self \<noteq> VServerTimestamp \<longrightarrow> map_of d ''created_at'' = Some (created_at self))"
proof -
  let ?data = "AList.update ''updated_at'' VServerTimestamp (model_dict self)"
  let ?coll = "save_collection_name cls"
  from db_get_db_set_merge [of "db w" ?coll i ?data "server_time w"]
  obtain d' where g: "db_get (db_set_merge (db w) ?coll i ?data (server_time w)) ?coll i = Some d'"
    and keep: "\<And>k v. map_of (resolve_timestamps (server_time w) ?data) k = Some v \<Longrightarrow> map_of d' k = Some v"
    by blast
  have "map_of (resolve_timestamps (server_time w) ?data) ''updated_at'' = Some (VTime (server_time w))"
    by (simp add: map_of_resolve_timestamps update_conv')
  then have u: "map_of d' ''updated_at'' = Some (VTime (server_time w))" by (rule keep)
  have c: "map_of d' ''created_at'' = Some (created_at self)" if "created_at self \<noteq> VServerTimestamp"
  proof -
    from that have "map_of (resolve_timestamps (server_time w) ?data) ''created_at'' = Some (created_at self)"
      by (simp add: map_of_resolve_timestamps update_conv' model_dict_def)
    then show ?thesis by (rule keep)
  qed
  from assms g u c show ?thesis
    by (auto simp: save_def Let_def)
qed

section \<open>What \<open>merge\<close> leaves alone\<close>

lemma model_dict_base_fields:
  "map_of (model_dict self) ''id'' = Some (id_m self)"
  "map_of (model_dict self) ''created_at'' = Some (created_at self)"
  "map_of (model_dict self) ''updated_at'' = Some (updated_at self)"
  by (simp_all add: model_dict_def)

lemma setattr_m_other_field:
  assumes "setattr_m self key v = Inr self'" and "key \<noteq> k"
  shows "map_of (model_dict self') k = map_of (model_dict self) k"
proof -
  consider "key = ''id''" | "key = ''created_at''" | "key = ''updated_at''"
    | "key \<noteq> ''id''" "key \<noteq> ''created_at''" "key \<noteq> ''updated_at''"
    by blast
  then show ?thesis
  proof cases
    case 1
    with assms show ?thesis by (auto simp: setattr_m_def model_dict_def)
  next
    case 2
    with assms show ?thesis by (auto simp: setattr_m_def model_dict_def)
  next
    case 3
    with assms show ?thesis by (auto simp: setattr_m_def model_dict_def)
  next
    case 4
    with assms(1) have "self' = self\<lparr>extra_fields := AList.update key v (extra_fields self)\<rparr>"
      by (simp add: setattr_m_def split: if_splits)
    with assms(2) show ?thesis by (simp add: model_dict_def update_conv')
  qed
qed

lemma apply_updates_untouched:
  "apply_updates excl self update_data = Inr self' \<Longrightarrow>
   k \<in> set excl \<or> k \<notin> fst ` set update_data \<Longrightarrow>
   map_of (model_dict self') k = map_of (model_dict self) k"
proof (induction update_data arbitrary: self)
  case Nil
  then show ?case by simp
next
  case (Cons kv rest)
  obtain key v where kv: "kv = (key, v)" by (cases kv)
  from Cons.prems(2) kv have rest_ok: "k \<in> set excl \<or> k \<notin> fst ` set rest" by auto
  show ?case
  proof (cases "key \<in> set excl")
    case True
    with Cons.prems(1) kv have "apply_updates excl self rest = Inr self'" by simp
    from Cons.IH [OF this rest_ok] show ?thesis .
  next
    case False
    with Cons.prems(1) kv obtain s1 where s1: "setattr_m self key v = Inr s1"
      and rest: "apply_updates excl s1 rest = Inr self'"
      by (auto split: sum.splits)
    from False Cons.prems(2) kv have "key \<noteq> k" by auto
    from setattr_m_other_field [OF s1 this] Cons.IH [OF rest rest_ok]
    show ?thesis by simp
  qed
qed

lemma apply_updates_keeps_created_at:
  "apply_updates excl self update_data = Inr self' \<Longrightarrow> ''created_at'' \<in> set excl \<Longrightarrow>
     created_at self' = created_at self"
  using apply_updates_untouched [of excl self update_data self' "''created_at''"]
  by (simp add: model_dict_base_fields)

lemma apply_updates_keeps_id:
  "apply_updates excl self update_data = Inr self' \<Longrightarrow> ''id'' \<in> set excl \<Longrightarrow>
     id_m self' = id_m self"
  using apply_updates_untouched [of excl self update_data self' "''id''"]
  by (simp add: model_dict_base_fields)

lemma merge_test_mode:
  assumes "resolve_test_mode w test_mode"
    and "merge cls self update_data overwrite_id exclude_props test_mode w = Inr (self', w')"
  shows "apply_updates
           (lists w (case exclude_props of None \<Rightarrow> merge_default_exclude_props | Some a \<Rightarrow> a))
           self update_data = Inr self' \<and>
         get_document (cache w') (get_collection_name cls) (id_m self') = Some (model_dict self') \<and>
         (\<forall>i. i \<noteq> id_m self' \<longrightarrow>
            get_document (cache w') (get_collection_name cls) i =
            get_document (cache w) (get_collection_name cls) i)"
  using assms
  by (auto simp: merge_def Let_def get_document_def update_document_def update_conv'
      split: sum.splits)

lemma merge_live_result:
  assumes "\<not> resolve_test_mode w test_mode"
    and "merge cls self update_data overwrite_id exclude_props test_mode w = Inr (self', w')"
  shows "w' = w\<lparr>lists := (lists w)
            ((case exclude_props of None \<Rightarrow> merge_default_exclude_props | Some a \<Rightarrow> a) :=
              lists w (case exclude_props of None \<Rightarrow> merge_default_exclude_props | Some a \<Rightarrow> a) @
              (if overwrite_id then [''created_at''] else [''id'', ''created_at'']))\<rparr>"
  using assms by (auto simp: merge_def Let_def split: sum.splits if_splits)

lemma merge_live_stores:
  assumes "\<not> resolve_test_mode w test_mode"
    and "merge cls self update_data overwrite_id exclude_props test_mode w = Inr (self', w')"
  shows "db w' = db w \<and> cache w' = cache w"
  using merge_live_result [OF assms] by simp

lemma merge_keeps_excluded:
  assumes "merge cls self update_data overwrite_id None test_mode w = Inr (self', w')"
  shows "(''created_at'' \<in> set (lists w merge_default_exclude_props) \<longrightarrow>
            created_at self' = created_at self) \<and>
         (''id'' \<in> set (lists w merge_default_exclude_props) \<longrightarrow> id_m self' = id_m self)"
proof -
  let ?a = merge_default_exclude_props
  from assms obtain s1 where s1: "apply_updates (lists w ?a) self update_data = Inr s1"
    by (auto simp: merge_def Let_def split: sum.splits)
  show ?thesis
  proof (cases "resolve_test_mode w test_mode")
    case True
    with assms s1 have "self' = s1" by (simp add: merge_def Let_def)
    with s1 show ?thesis
      by (auto dest: apply_updates_keeps_created_at apply_updates_keeps_id)
  next
    case False
    let ?ex = "lists w ?a @ (if \<not> overwrite_id then [''id'', ''created_at''] else [''created_at''])"
    from assms s1 False have s2: "apply_updates ?ex s1 update_data = Inr self'"
      by (auto simp: merge_def Let_def split: sum.splits)
    show ?thesis
    proof (intro conjI impI)
      assume c: "''created_at'' \<in> set (lists w ?a)"
      then have "''created_at'' \<in> set ?ex" by simp
      from apply_updates_keeps_created_at [OF s2 this] apply_updates_keeps_created_at [OF s1 c]
      show "created_at self' = created_at self" by simp
    next
      assume c: "''id'' \<in> set (lists w ?a)"
      then have "''id'' \<in> set ?ex" by simp
      from apply_updates_keeps_id [OF s2 this] apply_updates_keeps_id [OF s1 c]
      show "id_m self' = id_m self" by simp
    qed
  qed
qed

lemma setattr_m_field:
  assumes "has_field self key"
  shows "\<exists>self'. setattr_m self key v = Inr self' \<and> (\<forall>k. has_field self' k = has_field self k)"
proof -
  have "fst ` set (AList.update key v (extra_fields self)) = fst ` set (extra_fields self)"
    if "key \<in> fst ` set (extra_fields self)"
    using that by (simp add: dom_update [unfolded dom_map_of_conv_image_fst] insert_absorb)
  with assms show ?thesis
    by (auto simp: setattr_m_def has_field_def)
qed

lemma apply_updates_fields:
  "\<forall>k\<in>fst ` set update_data. k \<in> set excl \<or> has_field self k \<Longrightarrow>
   \<exists>self'. apply_updates excl self update_data = Inr self' \<and>
           (\<forall>k. has_field self' k = has_field self k)"
proof (induction update_data arbitrary: self)
  case Nil
  then show ?case by simp
next
  case (Cons kv rest)
  obtain key v where kv: "kv = (key, v)" by (cases kv)
  show ?case
  proof (cases "key \<in> set excl")
    case True
    from Cons.prems have "\<forall>k\<in>fst ` set rest. k \<in> set excl \<or> has_field self k" by simp
    from Cons.IH [OF this] True kv show ?thesis by simp
  next
    case False
    with Cons.prems kv have "has_field self key" by simp
    from setattr_m_field [OF this, of v] obtain s1 where s1: "setattr_m self key v = Inr s1"
      and f: "\<forall>k. has_field s1 k = has_field self k"
      by blast
    from Cons.prems f have "\<forall>k\<in>fst ` set rest. k \<in> set excl \<or> has_field s1 k" by simp
    from Cons.IH [OF this] obtain s2 where "apply_updates excl s1 rest = Inr s2"
      and "\<forall>k. has_field s2 k = has_field s1 k"
      by blast
    with s1 f False kv show ?thesis by simp
  qed
qed

lemma merge_live_returns:
  assumes "\<not> resolve_test_mode w test_mode"
    and "\<forall>k\<in>fst ` set update_data.
           k \<in> set (lists w (case exclude_props of None \<Rightarrow> merge_default_exclude_props | Some b \<Rightarrow> b)) \<or>
           has_field self k"
  shows "\<exists>self' w'. merge cls self update_data overwrite_id exclude_props test_mode w = Inr (self', w')"
proof -
  let ?a = "case exclude_props of None \<Rightarrow> merge_default_exclude_props | Some b \<Rightarrow> b"
  let ?ex = "lists w ?a @ (if \<not> overwrite_id then [''id'', ''created_at''] else [''created_at''])"
  from apply_updates_fields [OF assms(2)] obtain s1 where
    s1: "apply_updates (lists w ?a) self update_data = Inr s1"
    and f: "\<forall>k. has_field s1 k = has_field self k"
    by blast
  from assms(2) f have "\<forall>k\<in>fst ` set update_data. k \<in> set ?ex \<or> has_field s1 k"
    by auto
  from apply_updates_fields [OF this] obtain s2 where
    s2: "apply_updates ?ex s1 update_data = Inr s2"
    by blast
  from assms(1) s1 s2 show ?thesis
    by (simp add: merge_def Let_def)
qed

section \<open>Saving a new record and fetching it back\<close>

text \<open>
  C1, as amended. In test mode, saving a record that has no id and fetching the id
  that \<open>save\<close> assigned returns the record that the class builds from the field mapping
  \<open>save\<close> stored, which is the mapping of the record as it was when \<open>save\<close> was called:
  for a class that rebuilds a record from its own mapping, the fetched record has the
  saved record's further fields and its \<open>created_at\<close> and \<open>updated_at\<close>, which
  \<open>save\<close> has left as they were and has not populated.
\<close>

theorem save_then_get_by_id_test_mode:
  assumes "resolve_test_mode w test_mode" and "\<not> truthy (id_m self)"
    and "cls_init cls (model_dict self) = Inr self"
  shows "case save cls self generate_new_id test_mode w of
           Inl e \<Rightarrow> False
         | Inr (self', w') \<Rightarrow>
             (case id_m self' of
                VStr i \<Rightarrow>
                  self' = self\<lparr>id_m := VStr i\<rparr> \<and>
                  (case get_by_id cls i test_mode w' of
                     Inr (Some r) \<Rightarrow>
                       created_at r = created_at self \<and> updated_at r = updated_at self \<and>
                       created_at r = created_at self' \<and> updated_at r = updated_at self' \<and>
                       extra_fields r = extra_fields self'
                   | _ \<Rightarrow> False)
              | _ \<Rightarrow> False)"
proof -
  let ?fake = "fst (generate_fake_firebase_id w)"
  from save_test_mode [OF assms(1), of cls self generate_new_id] assms(2)
  obtain w' where s: "save cls self generate_new_id test_mode w = Inr (self\<lparr>id_m := VStr ?fake\<rparr>, w')"
    and c: "config_test_mode w' = config_test_mode w"
    and g: "get_document (cache w') (get_collection_name cls) (VStr ?fake) = Some (model_dict self)"
    by auto
  from c assms(1) have t: "resolve_test_mode w' test_mode"
    by (simp add: resolve_test_mode_def split: option.splits)
  have "model_dict self \<noteq> []" by (simp add: model_dict_def)
  with t g assms(3) have "get_by_id cls ?fake test_mode w' = Inr (Some self)"
    by (simp add: get_by_id_def)
  with s show ?thesis by simp
qed

theorem save_then_get_by_id_test_mode_witness:
  "(case save item_class (item VNone ''n'') False None empty_world of
      Inl e \<Rightarrow> None
    | Inr (self', w') \<Rightarrow> Some (self', get_by_id item_class ''abcdefghijklmnopqrst'' None w')) =
   Some (item (VStr ''abcdefghijklmnopqrst'') ''n'', Inr (Some (item VNone ''n'')))"
proof -
  have m: "resolve_test_mode empty_world None"
    by (simp add: example_defs)
  have i: "\<not> truthy (id_m (item VNone ''n''))"
    by (simp add: example_defs)
  have c: "cls_init item_class (model_dict (item VNone ''n'')) = Inr (item VNone ''n'')"
    by (simp add: example_defs)
  from save_then_get_by_id_test_mode [OF m i c, of False] show ?thesis
    by (simp add: write_defs get_by_id_def example_defs example_fake_id)
qed

text \<open>
  C1 as stated fails: a fresh record is saved in test mode and fetched by the id
  assigned to it; the fetched record's \<open>created_at\<close> and \<open>updated_at\<close> are still
  \<open>None\<close>.
\<close>

theorem save_test_mode_stamps_nothing:
  "(case save item_class
           \<lparr>id_m = VNone, created_at = VNone, updated_at = VNone, extra_fields = [(''name'', VStr ''n'')]\<rparr>
           False (Some True) empty_world of
      Inl e \<Rightarrow> None
    | Inr (self', w') \<Rightarrow> Some (self', get_by_id item_class ''abcdefghijklmnopqrst'' (Some True) w')) =
   Some (\<lparr>id_m = VStr ''abcdefghijklmnopqrst'', created_at = VNone, updated_at = VNone,
            extra_fields = [(''name'', VStr ''n'')]\<rparr>,
         Inr (Some \<lparr>id_m = VNone, created_at = VNone, updated_at = VNone,
                     extra_fields = [(''name'', VStr ''n'')]\<rparr>))"
  by (simp add: write_defs get_by_id_def example_defs example_fake_id)

section \<open>Merging an id in live mode\<close>

text \<open>
  C2. The first loop of \<open>merge\<close> runs before the default exclusions are added, so in
  live mode \<open>merge({"id": "x"}, overwrite_id=False)\<close> on a record with id \<open>a\<close> leaves
  the id \<open>x\<close>, with the default list (empty on the first call) and with a fresh list
  of the caller's; and once an earlier call has left \<open>id\<close> in the default list,
  \<open>merge({"id": "x"}, overwrite_id=True)\<close> does not set the id.
\<close>

theorem merge_live_changes_id_despite_exclusion:
  "map_sum id (id_m \<circ> fst)
     (merge item_class (item (VStr ''a'') ''n'') [(''id'', VStr ''x'')] False None (Some False)
        empty_world) = Inr (VStr ''x'') \<and>
   map_sum id (id_m \<circ> fst)
     (merge item_class (item (VStr ''a'') ''n'') [(''id'', VStr ''x'')] False (Some 1) (Some False)
        empty_world) = Inr (VStr ''x'') \<and>
   map_sum id (id_m \<circ> fst)
     (merge item_class (item (VStr ''a'') ''n'') [(''id'', VStr ''x'')] True None (Some False)
        after_first_merge) = Inr (VStr ''a'')"
  by (simp add: merge_def setattr_m_def merge_default_exclude_props_def after_first_merge_def
      example_defs)

section \<open>Inserts\<close>

text \<open>
  C3, as amended. In live mode, when the record has no id or \<open>generate_new_id\<close> is
  set, and the id the store generates is not taken, \<open>save\<close> is an insert: the record
  gets the generated id and the stored document's \<open>created_at\<close> and \<open>updated_at\<close> are
  the store's time. In test mode, when the record has no id, \<open>save\<close> assigns a locally
  generated id of 20 lowercase letters and digits and stores the record's field
  mapping under it as it is: the two timestamps are not stamped.
\<close>

theorem save_insert_by_mode:
  "(\<not> resolve_test_mode w test_mode \<and> (\<not> truthy (id_m self) \<or> generate_new_id) \<and>
    auto_ids w (autos_used w) \<notin> fst ` set (db w (save_collection_name cls)) \<longrightarrow>
      (case save cls self generate_new_id test_mode w of
         Inl e \<Rightarrow> False
       | Inr (self', w') \<Rightarrow>
           self' = self\<lparr>id_m := VStr (auto_ids w (autos_used w))\<rparr> \<and>
           live_field w' (save_collection_name cls) (auto_ids w (autos_used w)) ''created_at'' =
             Some (VTime (server_time w)) \<and>
           live_field w' (save_collection_name cls) (auto_ids w (autos_used w)) ''updated_at'' =
             Some (VTime (server_time w)))) \<and>
   (resolve_test_mode w test_mode \<and> \<not> truthy (id_m self) \<longrightarrow>
      (case save cls self generate_new_id test_mode w of
         Inl e \<Rightarrow> False
       | Inr (self', w') \<Rightarrow>
           self' = self\<lparr>id_m := VStr (fst (generate_fake_firebase_id w))\<rparr> \<and>
           length (fst (generate_fake_firebase_id w)) = 20 \<and>
           set (fst (generate_fake_firebase_id w)) \<subseteq> set id_alphabet \<and>
           get_document (cache w') (get_collection_name cls) (id_m self') = Some (model_dict self) \<and>
           created_at self' = created_at self \<and> updated_at self' = updated_at self))"
proof (intro conjI impI)
  assume "\<not> resolve_test_mode w test_mode \<and> (\<not> truthy (id_m self) \<or> generate_new_id) \<and>
    auto_ids w (autos_used w) \<notin> fst ` set (db w (save_collection_name cls))"
  then have a: "\<not> resolve_test_mode w test_mode" "\<not> truthy (id_m self) \<or> generate_new_id"
    "auto_ids w (autos_used w) \<notin> fst ` set (db w (save_collection_name cls))"
    by simp_all
  from save_live_insert [OF a] show "case save cls self generate_new_id test_mode w of
         Inl e \<Rightarrow> False
       | Inr (self', w') \<Rightarrow>
           self' = self\<lparr>id_m := VStr (auto_ids w (autos_used w))\<rparr> \<and>
           live_field w' (save_collection_name cls) (auto_ids w (autos_used w)) ''created_at'' =
             Some (VTime (server_time w)) \<and>
           live_field w' (save_collection_name cls) (auto_ids w (autos_used w)) ''updated_at'' =
             Some (VTime (server_time w))"
    by (auto simp: live_field_def)
next
  assume "resolve_test_mode w test_mode \<and> \<not> truthy (id_m self)"
  then have t: "resolve_test_mode w test_mode" and i: "\<not> truthy (id_m self)"
    by simp_all
  from save_test_mode [OF t, of cls self generate_new_id] i fake_id_shape [of w]
  show "case save cls self generate_new_id test_mode w of
         Inl e \<Rightarrow> False
       | Inr (self', w') \<Rightarrow>
           self' = self\<lparr>id_m := VStr (fst (generate_fake_firebase_id w))\<rparr> \<and>
           length (fst (generate_fake_firebase_id w)) = 20 \<and>
           set (fst (generate_fake_firebase_id w)) \<subseteq> set id_alphabet \<and>
           get_document (cache w') (get_collection_name cls) (id_m self') = Some (model_dict self) \<and>
           created_at self' = created_at self \<and> updated_at self' = updated_at self"
    by auto
qed

theorem save_insert_by_mode_witness:
  "(case save item_class (item VNone ''n'') False (Some False) empty_world of
      Inl e \<Rightarrow> None
    | Inr (self', w') \<Rightarrow>
        Some (self', live_field w' ''Items'' ''z'' ''created_at'', live_field w' ''Items'' ''z'' ''updated_at'')) =
     Some (item (VStr ''z'') ''n'', Some (VTime 100), Some (VTime 100)) \<and>
   (case save item_class (item VNone ''n'') False (Some True) empty_world of
      Inl e \<Rightarrow> None
    | Inr (self', w') \<Rightarrow> Some (self', get_document (cache w') ''Items'' (id_m self'))) =
     Some (item (VStr ''abcdefghijklmnopqrst'') ''n'', Some (model_dict (item VNone ''n'')))"
proof -
  have l: "\<not> resolve_test_mode empty_world (Some False) \<and>
      (\<not> truthy (id_m (item VNone ''n'')) \<or> False) \<and>
      auto_ids empty_world (autos_used empty_world) \<notin>
        fst ` set (db empty_world (save_collection_name item_class))"
    by (simp add: example_defs)
  have t: "resolve_test_mode empty_world (Some True) \<and> \<not> truthy (id_m (item VNone ''n''))"
    by (simp add: example_defs)
  from save_insert_by_mode [of empty_world "Some False" "item VNone ''n''" False item_class] l
  have a: "(case save item_class (item VNone ''n'') False (Some False) empty_world of
      Inl e \<Rightarrow> None
    | Inr (self', w') \<Rightarrow>
        Some (self', live_field w' ''Items'' ''z'' ''created_at'', live_field w' ''Items'' ''z'' ''updated_at'')) =
     Some (item (VStr ''z'') ''n'', Some (VTime 100), Some (VTime 100))"
    by (simp add: write_defs example_defs)
  from save_insert_by_mode [of empty_world "Some True" "item VNone ''n''" False item_class] t
  have b: "(case save item_class (item VNone ''n'') False (Some True) empty_world of
      Inl e \<Rightarrow> None
    | Inr (self', w') \<Rightarrow> Some (self', get_document (cache w') ''Items'' (id_m self'))) =
     Some (item (VStr ''abcdefghijklmnopqrst'') ''n'', Some (model_dict (item VNone ''n'')))"
    by (simp add: write_defs example_defs example_fake_id)
  from a b show ?thesis by simp
qed

text \<open>
  C3 as stated fails: in test mode a record without an id gets a new id, but neither
  the record nor the stored document has \<open>created_at\<close> or \<open>updated_at\<close> stamped.
\<close>

theorem save_test_mode_insert_not_stamped:
  "(case save item_class
           \<lparr>id_m = VNone, created_at = VNone, updated_at = VNone, extra_fields = [(''name'', VStr ''n'')]\<rparr>
           False (Some True) empty_world of
      Inl e \<Rightarrow> None
    | Inr (self', w') \<Rightarrow>
        Some (created_at self', updated_at self',
              cached_field w' ''Items'' (id_m self') ''created_at'',
              cached_field w' ''Items'' (id_m self') ''updated_at'')) =
   Some (VNone, VNone, Some VNone, Some VNone)"
  by (simp add: write_defs example_defs example_fake_id)

section \<open>The update timestamp\<close>

text \<open>
  C4, as amended. In live mode \<open>save\<close> writes the store's time into the stored
  document's \<open>updated_at\<close>, as an insert and as an update. In test mode \<open>save\<close> and
  \<open>merge\<close> store the record's field mapping as it is, so the stored \<open>updated_at\<close> is
  the record's own value (which \<open>save\<close> never changes, and \<open>merge\<close> changes only when
  the update assigns it). In live mode \<open>merge\<close> writes to neither store.
\<close>

theorem updated_at_refresh_by_mode:
  "(\<not> resolve_test_mode w test_mode \<and> (\<not> truthy (id_m self) \<or> generate_new_id) \<and>
    auto_ids w (autos_used w) \<notin> fst ` set (db w (save_collection_name cls)) \<longrightarrow>
      (case save cls self generate_new_id test_mode w of
         Inl e \<Rightarrow> False
       | Inr (self', w') \<Rightarrow>
           live_field w' (save_collection_name cls) (auto_ids w (autos_used w)) ''updated_at'' =
             Some (VTime (server_time w)))) \<and>
   (\<not> resolve_test_mode w test_mode \<and> id_m self = VStr i \<and> i \<noteq> [] \<and> \<not> generate_new_id \<longrightarrow>
      (case save cls self generate_new_id test_mode w of
         Inl e \<Rightarrow> False
       | Inr (self', w') \<Rightarrow>
           live_field w' (save_collection_name cls) i ''updated_at'' = Some (VTime (server_time w)))) \<and>
   (resolve_test_mode w test_mode \<longrightarrow>
      (case save cls self generate_new_id test_mode w of
         Inl e \<Rightarrow> False
       | Inr (self', w') \<Rightarrow>
           updated_at self' = updated_at self \<and>
           cached_field w' (get_collection_name cls) (id_m self') ''updated_at'' =
             Some (updated_at self))) \<and>
   (resolve_test_mode w test_mode \<longrightarrow>
      (case merge cls self update_data overwrite_id exclude_props test_mode w of
         Inl e \<Rightarrow> True
       | Inr (self', w') \<Rightarrow>
           cached_field w' (get_collection_name cls) (id_m self') ''updated_at'' =
             Some (updated_at self') \<and>
           (''updated_at'' \<notin> fst ` set update_data \<longrightarrow> updated_at self' = updated_at self))) \<and>
   (\<not> resolve_test_mode w test_mode \<longrightarrow>
      (case merge cls self update_data overwrite_id exclude_props test_mode w of
         Inl e \<Rightarrow> True
       | Inr (self', w') \<Rightarrow> db w' = db w \<and> cache w' = cache w))"
proof -
  have live_insert: "case save cls self generate_new_id test_mode w of
         Inl e \<Rightarrow> False
       | Inr (self', w') \<Rightarrow>
           live_field w' (save_collection_name cls) (auto_ids w (autos_used w)) ''updated_at'' =
             Some (VTime (server_time w))"
    if "\<not> resolve_test_mode w test_mode" "\<not> truthy (id_m self) \<or> generate_new_id"
      "auto_ids w (autos_used w) \<notin> fst ` set (db w (save_collection_name cls))"
    using save_live_insert [OF that] by (auto simp: live_field_def)
  have live_update: "case save cls self generate_new_id test_mode w of
         Inl e \<Rightarrow> False
       | Inr (self', w') \<Rightarrow>
           live_field w' (save_collection_name cls) i ''updated_at'' = Some (VTime (server_time w))"
    if "\<not> resolve_test_mode w test_mode" "id_m self = VStr i" "i \<noteq> []" "\<not> generate_new_id"
    using save_live_update [OF that, of cls] by (auto simp: live_field_def)
  have test_save: "case save cls self generate_new_id test_mode w of
         Inl e \<Rightarrow> False
       | Inr (self', w') \<Rightarrow>
           updated_at self' = updated_at self \<and>
           cached_field w' (get_collection_name cls) (id_m self') ''updated_at'' =
             Some (updated_at self)"
    if "resolve_test_mode w test_mode"
    using save_test_mode [OF that, of cls self generate_new_id]
    by (auto simp: cached_field_def model_dict_base_fields)
  have test_merge: "case merge cls self update_data overwrite_id exclude_props test_mode w of
         Inl e \<Rightarrow> True
       | Inr (self', w') \<Rightarrow>
           cached_field w' (get_collection_name cls) (id_m self') ''updated_at'' =
             Some (updated_at self') \<and>
           (''updated_at'' \<notin> fst ` set update_data \<longrightarrow> updated_at self' = updated_at self)"
    if t: "resolve_test_mode w test_mode"
  proof (cases "merge cls self update_data overwrite_id exclude_props test_mode w")
    case (Inl e)
    then show ?thesis by simp
  next
    case (Inr p)
    obtain self' w' where p: "p = (self', w')" by (cases p)
    from merge_test_mode [OF t Inr [unfolded p]]
    have a: "apply_updates
           (lists w (case exclude_props of None \<Rightarrow> merge_default_exclude_props | Some a \<Rightarrow> a))
           self update_data = Inr self'"
      and g: "get_document (cache w') (get_collection_name cls) (id_m self') = Some (model_dict self')"
      by simp_all
    have "updated_at self' = updated_at self" if "''updated_at'' \<notin> fst ` set update_data"
      using apply_updates_untouched [OF a, of "''updated_at''"] that
      by (simp add: model_dict_base_fields)
    with g Inr p show ?thesis
      by (simp add: cached_field_def model_dict_base_fields)
  qed
  have live_merge: "case merge cls self update_data overwrite_id exclude_props test_mode w of
         Inl e \<Rightarrow> True
       | Inr (self', w') \<Rightarrow> db w' = db w \<and> cache w' = cache w"
    if t: "\<not> resolve_test_mode w test_mode"
  proof (cases "merge cls self update_data overwrite_id exclude_props test_mode w")
    case (Inl e)
    then show ?thesis by simp
  next
    case (Inr p)
    obtain self' w' where p: "p = (self', w')" by (cases p)
    from merge_live_stores [OF t Inr [unfolded p]] Inr p show ?thesis by simp
  qed
  from live_insert live_update test_save test_merge live_merge show ?thesis
    by blast
qed

theorem updated_at_refresh_by_mode_witness:
  "(case save item_class (item VNone ''n'') False (Some False) empty_world of
      Inl e \<Rightarrow> None | Inr (self', w') \<Rightarrow> live_field w' ''Items'' ''z'' ''updated_at'') =
     Some (VTime 100) \<and>
   (case save item_class (stamped_item ''a'' ''new'') False (Some False) stamped_world of
      Inl e \<Rightarrow> None | Inr (self', w') \<Rightarrow> live_field w' ''Items'' ''a'' ''updated_at'') =
     Some (VTime 100) \<and>
   (case save item_class (stamped_item ''a'' ''new'') False (Some True) stamped_world of
      Inl e \<Rightarrow> None | Inr (self', w') \<Rightarrow> cached_field w' ''Items'' (VStr ''a'') ''updated_at'') =
     Some (VTime 1) \<and>
   (case merge item_class (stamped_item ''a'' ''old'') [(''name'', VStr ''new'')] False None (Some True)
           stamped_world of
      Inl e \<Rightarrow> None | Inr (self', w') \<Rightarrow> cached_field w' ''Items'' (VStr ''a'') ''updated_at'') =
     Some (VTime 1) \<and>
   (case merge item_class (stamped_item ''a'' ''old'') [(''name'', VStr ''new'')] False None (Some False)
           stamped_world of
      Inl e \<Rightarrow> None | Inr (self', w') \<Rightarrow> live_field w' ''Items'' ''a'' ''name'') =
     Some (VStr ''old'')"
proof -
  have h1: "\<not> resolve_test_mode empty_world (Some False) \<and>
      (\<not> truthy (id_m (item VNone ''n'')) \<or> False) \<and>
      auto_ids empty_world (autos_used empty_world) \<notin>
        fst ` set (db empty_world (save_collection_name item_class))"
    by (simp add: example_defs)
  have h2: "\<not> resolve_test_mode stamped_world (Some False) \<and>
      id_m (stamped_item ''a'' ''new'') = VStr ''a'' \<and> ''a'' \<noteq> [] \<and> \<not> False"
    by (simp add: write_defs example_defs)
  have h3: "resolve_test_mode stamped_world (Some True)"
    by (simp add: example_defs)
  have h5: "\<not> resolve_test_mode stamped_world (Some False)"
    by (simp add: example_defs)
  from h1 updated_at_refresh_by_mode [where w = empty_world and test_mode = "Some False"
      and self = "item VNone ''n''" and generate_new_id = False and cls = item_class]
  have a: "(case save item_class (item VNone ''n'') False (Some False) empty_world of
      Inl e \<Rightarrow> None | Inr (self', w') \<Rightarrow> live_field w' ''Items'' ''z'' ''updated_at'') =
     Some (VTime 100)"
    by (simp add: write_defs example_defs)
  from h2 updated_at_refresh_by_mode [where w = stamped_world and test_mode = "Some False"
      and self = "stamped_item ''a'' ''new''" and generate_new_id = False and cls = item_class
      and i = "''a''"]
  have b: "(case save item_class (stamped_item ''a'' ''new'') False (Some False) stamped_world of
      Inl e \<Rightarrow> None | Inr (self', w') \<Rightarrow> live_field w' ''Items'' ''a'' ''updated_at'') =
     Some (VTime 100)"
    by (simp add: write_defs example_defs update_conv' merge_conv')
  from h3 updated_at_refresh_by_mode [where w = stamped_world and test_mode = "Some True"
      and self = "stamped_item ''a'' ''new''" and generate_new_id = False and cls = item_class]
  have c: "(case save item_class (stamped_item ''a'' ''new'') False (Some True) stamped_world of
      Inl e \<Rightarrow> None | Inr (self', w') \<Rightarrow> cached_field w' ''Items'' (VStr ''a'') ''updated_at'') =
     Some (VTime 1)"
    by (simp add: write_defs example_defs)
  from h3 updated_at_refresh_by_mode [where w = stamped_world and test_mode = "Some True"
      and self = "stamped_item ''a'' ''old''" and cls = item_class
      and update_data = "[(''name'', VStr ''new'')]" and overwrite_id = False
      and exclude_props = None]
  have d: "(case merge item_class (stamped_item ''a'' ''old'') [(''name'', VStr ''new'')] False None
           (Some True) stamped_world of
      Inl e \<Rightarrow> None | Inr (self', w') \<Rightarrow> cached_field w' ''Items'' (VStr ''a'') ''updated_at'') =
     Some (VTime 1)"
    by (simp add: merge_def setattr_m_def merge_default_exclude_props_def write_defs example_defs)
  from h5 updated_at_refresh_by_mode [where w = stamped_world and test_mode = "Some False"
      and self = "stamped_item ''a'' ''old''" and cls = item_class
      and update_data = "[(''name'', VStr ''new'')]" and overwrite_id = False
      and exclude_props = None]
  have e: "(case merge item_class (stamped_item ''a'' ''old'') [(''name'', VStr ''new'')] False None
           (Some False) stamped_world of
      Inl e \<Rightarrow> None | Inr (self', w') \<Rightarrow> live_field w' ''Items'' ''a'' ''name'') =
     Some (VStr ''old'')"
    by (simp add: merge_def setattr_m_def merge_default_exclude_props_def write_defs example_defs)
  from a b c d e show ?thesis by simp
qed

text \<open>
  C4 as stated fails: in test mode, saving a persisted record with a changed name
  changes the stored document and leaves its \<open>updated_at\<close> (and the record's) at the
  old time 1, while the store's clock reads 100.
\<close>

theorem save_test_mode_update_keeps_updated_at:
  "server_time stamped_world = 100 \<and>
   cached_field stamped_world ''Items'' (VStr ''a'') ''name'' = Some (VStr ''old'') \<and>
   cached_field stamped_world ''Items'' (VStr ''a'') ''updated_at'' = Some (VTime 1) \<and>
   (case save item_class
           \<lparr>id_m = VStr ''a'', created_at = VTime 1, updated_at = VTime 1,
              extra_fields = [(''name'', VStr ''new'')]\<rparr>
           False (Some True) stamped_world of
      Inl e \<Rightarrow> None
    | Inr (self', w') \<Rightarrow>
        Some (updated_at self', cached_field w' ''Items'' (VStr ''a'') ''name'',
              cached_field w' ''Items'' (VStr ''a'') ''updated_at'')) =
     Some (VTime 1, Some (VStr ''new''), Some (VTime 1))"
  by (simp add: write_defs example_defs)

section \<open>The creation timestamp\<close>

text \<open>
  C5, as amended. A save as update writes the record's own \<open>created_at\<close> with the
  other fields, so the stored creation timestamp is unchanged when the record
  carries the stored value, in live mode (for a value that is not the sentinel) and
  in test mode; a test-mode \<open>merge\<close> that assigns neither \<open>id\<close> nor \<open>created_at\<close>
  leaves it unchanged under the same condition; a live-mode \<open>merge\<close> writes to
  neither store.
\<close>

theorem created_at_kept_when_carried:
  "(\<not> resolve_test_mode w test_mode \<and> id_m self = VStr i \<and> i \<noteq> [] \<and> \<not> generate_new_id \<and>
    created_at self \<noteq> VServerTimestamp \<and>
    live_field w (save_collection_name cls) i ''created_at'' = Some (created_at self) \<longrightarrow>
      (case save cls self generate_new_id test_mode w of
         Inl e \<Rightarrow> False
       | Inr (self', w') \<Rightarrow>
           live_field w' (save_collection_name cls) i ''created_at'' =
           live_field w (save_collection_name cls) i ''created_at'')) \<and>
   (resolve_test_mode w test_mode \<and> truthy (id_m self) \<and>
    cached_field w (get_collection_name cls) (id_m self) ''created_at'' = Some (created_at self) \<longrightarrow>
      (case save cls self generate_new_id test_mode w of
         Inl e \<Rightarrow> False
       | Inr (self', w') \<Rightarrow>
           cached_field w' (get_collection_name cls) (id_m self) ''created_at'' =
           cached_field w (get_collection_name cls) (id_m self) ''created_at'')) \<and>
   (resolve_test_mode w test_mode \<and>
    ''id'' \<notin> fst ` set update_data \<and> ''created_at'' \<notin> fst ` set update_data \<and>
    cached_field w (get_collection_name cls) (id_m self) ''created_at'' = Some (created_at self) \<longrightarrow>
      (case merge cls self update_data overwrite_id exclude_props test_mode w of
         Inl e \<Rightarrow> True
       | Inr (self', w') \<Rightarrow>
           cached_field w' (get_collection_name cls) (id_m self) ''created_at'' =
           cached_field w (get_collection_name cls) (id_m self) ''created_at'')) \<and>
   (\<not> resolve_test_mode w test_mode \<longrightarrow>
      (case merge cls self update_data overwrite_id exclude_props test_mode w of
         Inl e \<Rightarrow> True
       | Inr (self', w') \<Rightarrow> db w' = db w \<and> cache w' = cache w))"
proof -
  have live_update: "case save cls self generate_new_id test_mode w of
         Inl e \<Rightarrow> False
       | Inr (self', w') \<Rightarrow>
           live_field w' (save_collection_name cls) i ''created_at'' =
           live_field w (save_collection_name cls) i ''created_at''"
    if "\<not> resolve_test_mode w test_mode" "id_m self = VStr i" "i \<noteq> []" "\<not> generate_new_id"
      and c: "created_at self \<noteq> VServerTimestamp"
        "live_field w (save_collection_name cls) i ''created_at'' = Some (created_at self)"
    using save_live_update [OF that(1-4), of cls] c by (auto simp: live_field_def)
  have test_save: "case save cls self generate_new_id test_mode w of
         Inl e \<Rightarrow> False
       | Inr (self', w') \<Rightarrow>
           cached_field w' (get_collection_name cls) (id_m self) ''created_at'' =
           cached_field w (get_collection_name cls) (id_m self) ''created_at''"
    if t: "resolve_test_mode w test_mode" and i: "truthy (id_m self)"
      and c: "cached_field w (get_collection_name cls) (id_m self) ''created_at'' =
                Some (created_at self)"
    using save_test_mode [OF t, of cls self generate_new_id] i c
    by (auto simp: cached_field_def model_dict_base_fields)
  have test_merge: "case merge cls self update_data overwrite_id exclude_props test_mode w of
         Inl e \<Rightarrow> True
       | Inr (self', w') \<Rightarrow>
           cached_field w' (get_collection_name cls) (id_m self) ''created_at'' =
           cached_field w (get_collection_name cls) (id_m self) ''created_at''"
    if t: "resolve_test_mode w test_mode"
      and k: "''id'' \<notin> fst ` set update_data" "''created_at'' \<notin> fst ` set update_data"
      and c: "cached_field w (get_collection_name cls) (id_m self) ''created_at'' =
                Some (created_at self)"
  proof (cases "merge cls self update_data overwrite_id exclude_props test_mode w")
    case (Inl e)
    then show ?thesis by simp
  next
    case (Inr p)
    obtain self' w' where p: "p = (self', w')" by (cases p)
    from merge_test_mode [OF t Inr [unfolded p]]
    have a: "apply_updates
           (lists w (case exclude_props of None \<Rightarrow> merge_default_exclude_props | Some a \<Rightarrow> a))
           self update_data = Inr self'"
      and g: "get_document (cache w') (get_collection_name cls) (id_m self') = Some (model_dict self')"
      by simp_all
    from apply_updates_untouched [OF a, of "''id''"] k(1)
    have same_id: "id_m self' = id_m self"
      by (simp add: model_dict_base_fields)
    from apply_updates_untouched [OF a, of "''created_at''"] k(2)
    have "created_at self' = created_at self"
      by (simp add: model_dict_base_fields)
    with g same_id c Inr p show ?thesis
      by (simp add: cached_field_def model_dict_base_fields)
  qed
  have live_merge: "case merge cls self update_data overwrite_id exclude_props test_mode w of
         Inl e \<Rightarrow> True
       | Inr (self', w') \<Rightarrow> db w' = db w \<and> cache w' = cache w"
    if t: "\<not> resolve_test_mode w test_mode"
  proof (cases "merge cls self update_data overwrite_id exclude_props test_mode w")
    case (Inl e)
    then show ?thesis by simp
  next
    case (Inr p)
    obtain self' w' where p: "p = (self', w')" by (cases p)
    from merge_live_stores [OF t Inr [unfolded p]] Inr p show ?thesis by simp
  qed
  from live_update test_save test_merge live_merge show ?thesis
    by blast
qed

theorem created_at_kept_when_carried_witness:
  "(case save item_class (stamped_item ''a'' ''new'') False (Some False) stamped_world of
      Inl e \<Rightarrow> None | Inr (self', w') \<Rightarrow> live_field w' ''Items'' ''a'' ''created_at'') =
     Some (VTime 1) \<and>
   (case save item_class (stamped_item ''a'' ''new'') False (Some True) stamped_world of
      Inl e \<Rightarrow> None | Inr (self', w') \<Rightarrow> cached_field w' ''Items'' (VStr ''a'') ''created_at'') =
     Some (VTime 1) \<and>
   (case merge item_class (stamped_item ''a'' ''old'') [(''name'', VStr ''new'')] False None (Some True)
           stamped_world of
      Inl e \<Rightarrow> None | Inr (self', w') \<Rightarrow> cached_field w' ''Items'' (VStr ''a'') ''created_at'') =
     Some (VTime 1) \<and>
   (case merge item_class (stamped_item ''a'' ''old'') [(''created_at'', VTime 9)] False None (Some False)
           stamped_world of
      Inl e \<Rightarrow> None | Inr (self', w') \<Rightarrow> live_field w' ''Items'' ''a'' ''created_at'') =
     Some (VTime 1)"
proof -
  have h1: "\<not> resolve_test_mode stamped_world (Some False) \<and>
      id_m (stamped_item ''a'' ''new'') = VStr ''a'' \<and> ''a'' \<noteq> [] \<and> \<not> False \<and>
      created_at (stamped_item ''a'' ''new'') \<noteq> VServerTimestamp \<and>
      live_field stamped_world (save_collection_name item_class) ''a'' ''created_at'' =
        Some (created_at (stamped_item ''a'' ''new''))"
    by (simp add: write_defs example_defs)
  have h2: "resolve_test_mode stamped_world (Some True) \<and> truthy (id_m (stamped_item ''a'' ''new'')) \<and>
      cached_field stamped_world (get_collection_name item_class) (id_m (stamped_item ''a'' ''new''))
        ''created_at'' = Some (created_at (stamped_item ''a'' ''new''))"
    by (simp add: write_defs example_defs)
  have h3: "resolve_test_mode stamped_world (Some True) \<and>
      ''id'' \<notin> fst ` set [(''name'', VStr ''new'')] \<and>
      ''created_at'' \<notin> fst ` set [(''name'', VStr ''new'')] \<and>
      cached_field stamped_world (get_collection_name item_class) (id_m (stamped_item ''a'' ''old''))
        ''created_at'' = Some (created_at (stamped_item ''a'' ''old''))"
    by (simp add: write_defs example_defs)
  have h4: "\<not> resolve_test_mode stamped_world (Some False)"
    by (simp add: example_defs)
  from h1 created_at_kept_when_carried [where w = stamped_world and test_mode = "Some False"
      and self = "stamped_item ''a'' ''new''" and generate_new_id = False and cls = item_class
      and i = "''a''"]
  have a: "(case save item_class (stamped_item ''a'' ''new'') False (Some False) stamped_world of
      Inl e \<Rightarrow> None | Inr (self', w') \<Rightarrow> live_field w' ''Items'' ''a'' ''created_at'') =
     Some (VTime 1)"
    by (simp add: write_defs example_defs update_conv' merge_conv')
  from h2 created_at_kept_when_carried [where w = stamped_world and test_mode = "Some True"
      and self = "stamped_item ''a'' ''new''" and generate_new_id = False and cls = item_class]
  have b: "(case save item_class (stamped_item ''a'' ''new'') False (Some True) stamped_world of
      Inl e \<Rightarrow> None | Inr (self', w') \<Rightarrow> cached_field w' ''Items'' (VStr ''a'') ''created_at'') =
     Some (VTime 1)"
    by (simp add: write_defs example_defs)
  from h3 created_at_kept_when_carried [where w = stamped_world and test_mode = "Some True"
      and self = "stamped_item ''a'' ''old''" and cls = item_class
      and update_data = "[(''name'', VStr ''new'')]" and overwrite_id = False
      and exclude_props = None]
  have c: "(case merge item_class (stamped_item ''a'' ''old'') [(''name'', VStr ''new'')] False None
           (Some True) stamped_world of
      Inl e \<Rightarrow> None | Inr (self', w') \<Rightarrow> cached_field w' ''Items'' (VStr ''a'') ''created_at'') =
     Some (VTime 1)"
    by (simp add: merge_def setattr_m_def merge_default_exclude_props_def write_defs example_defs)
  from h4 created_at_kept_when_carried [where w = stamped_world and test_mode = "Some False"
      and self = "stamped_item ''a'' ''old''" and cls = item_class
      and update_data = "[(''created_at'', VTime 9)]" and overwrite_id = False
      and exclude_props = None]
  have d: "(case merge item_class (stamped_item ''a'' ''old'') [(''created_at'', VTime 9)] False None
           (Some False) stamped_world of
      Inl e \<Rightarrow> None | Inr (self', w') \<Rightarrow> live_field w' ''Items'' ''a'' ''created_at'') =
     Some (VTime 1)"
    by (simp add: merge_def setattr_m_def merge_default_exclude_props_def write_defs example_defs)
  from a b c d show ?thesis by simp
qed

text \<open>
  C5 as stated fails: the live store holds a document with \<open>created_at\<close> 1; a record
  with that id and no \<open>created_at\<close> is saved as an update in live mode, and the
  stored \<open>created_at\<close> becomes \<open>None\<close>.
\<close>

theorem save_live_update_overwrites_created_at:
  "live_field stamped_world ''Items'' ''a'' ''created_at'' = Some (VTime 1) \<and>
   (case save item_class
           \<lparr>id_m = VStr ''a'', created_at = VNone, updated_at = VNone,
              extra_fields = [(''name'', VStr ''new'')]\<rparr>
           False (Some False) stamped_world of
      Inl e \<Rightarrow> None
    | Inr (self', w') \<Rightarrow> live_field w' ''Items'' ''a'' ''created_at'') = Some VNone"
  by (simp add: write_defs example_defs update_conv' merge_conv')

section \<open>Pages in test mode\<close>

lemma py_slice_window:
  assumes "0 \<le> s" and "0 \<le> l"
  shows "py_slice s (s + l) xs = take (nat l) (drop (nat s) xs)"
proof (cases "s \<le> int (length xs)")
  case True
  show ?thesis
  proof (cases "s + l \<le> int (length xs)")
    case True
    with assms \<open>s \<le> int (length xs)\<close> show ?thesis
      by (simp add: py_slice_def slice_index_def Let_def min_def)
  next
    case False
    with assms True have "nat (int (length xs) - s) = length (drop (nat s) xs)"
      and "length (drop (nat s) xs) \<le> nat l"
      by auto
    with assms True False show ?thesis
      by (simp add: py_slice_def slice_index_def Let_def min_def)
  qed
next
  case False
  with assms have "drop (nat s) xs = []" by simp
  with assms False show ?thesis
    by (simp add: py_slice_def slice_index_def Let_def min_def)
qed

lemma build_all_append:
  "build_all cls (xs @ ys) =
     (case build_all cls xs of
        Inl e \<Rightarrow> Inl e
      | Inr a \<Rightarrow> (case build_all cls ys of Inl e \<Rightarrow> Inl e | Inr b \<Rightarrow> Inr (a @ b)))"
  by (induction xs) (auto split: sum.splits)

lemma concat_pages_snoc:
  "concat_pages (rs @ [r]) =
     (case concat_pages rs of
        Inl e \<Rightarrow> Inl e
      | Inr xs \<Rightarrow> (case r of Inl e \<Rightarrow> Inl e | Inr ys \<Rightarrow> Inr (xs @ ys)))"
  by (induction rs) (auto split: sum.splits)

lemma concat_windows:
  "concat_pages (map (\<lambda>k. build_all cls (take p (drop (k * p) xs))) [0..<n]) =
     build_all cls (take (n * p) xs)"
proof (induction n)
  case 0
  show ?case by simp
next
  case (Suc n)
  have "Suc n * p = n * p + p" by simp
  then have "take (Suc n * p) xs = take (n * p) xs @ take p (drop (n * p) xs)"
    by (simp only: take_add)
  with Suc show ?case
    by (simp add: concat_pages_snoc build_all_append split: sum.splits)
qed

lemma page_count_covers:
  assumes "1 \<le> page_size"
  shows "n \<le> page_count n page_size * nat page_size"
proof -
  have "int n \<le> ((int n + page_size - 1) div page_size) * page_size"
  proof -
    have "(int n + page_size - 1) mod page_size < page_size"
      using assms by simp
    then have "(int n + page_size - 1) mod page_size \<le> page_size - 1"
      by linarith
    moreover have "int n + page_size - 1 =
        ((int n + page_size - 1) div page_size) * page_size + (int n + page_size - 1) mod page_size"
      by simp
    ultimately show ?thesis by linarith
  qed
  moreover have "0 \<le> (int n + page_size - 1) div page_size"
    using assms by (simp add: pos_imp_zdiv_nonneg_iff)
  ultimately have "int n \<le> int (page_count n page_size * nat page_size)"
    using assms by (simp add: page_count_def)
  then show ?thesis by linarith
qed

lemma get_page_window:
  assumes "resolve_test_mode w test_mode" and "1 \<le> page_size"
    and "filtered_docs (cache w) (get_collection_name cls) query_params array_contains = Inr docs"
  shows "get_page cls (int (Suc k)) page_size query_params array_contains test_mode w =
           build_all cls (take (nat page_size) (drop (k * nat page_size) docs))"
proof -
  have "py_slice (int k * page_size) (int k * page_size + page_size) docs =
          take (nat page_size) (drop (nat (int k * page_size)) docs)"
    using assms(2) by (intro py_slice_window) simp_all
  moreover have "nat (int k * page_size) = k * nat page_size"
    using assms(2) by (simp add: nat_mult_distrib)
  ultimately show ?thesis
    using assms by (simp add: get_page_def Let_def)
qed

text \<open>
  C6. In test mode, for a page size of at least 1, the pages 1 to \<open>ceil(N / P)\<close> of
  the \<open>N\<close> documents that pass the filters, joined in order, are the records of
  exactly those documents, each once and in their order: the page window is cut from
  the filtered list.
\<close>

theorem pages_cover_filtered_docs:
  assumes "resolve_test_mode w test_mode" and "1 \<le> page_size"
    and "filtered_docs (cache w) (get_collection_name cls) query_params array_contains = Inr docs"
  shows "concat_pages
           (map (\<lambda>page. get_page cls (int page) page_size query_params array_contains test_mode w)
              [1..<Suc (page_count (length docs) page_size)]) =
         build_all cls docs"
proof -
  let ?n = "page_count (length docs) page_size"
  have "map (\<lambda>page. get_page cls (int page) page_size query_params array_contains test_mode w)
          [1..<Suc ?n] =
        map (\<lambda>k. get_page cls (int (Suc k)) page_size query_params array_contains test_mode w)
          [0..<?n]"
    by (simp add: map_Suc_upt [symmetric] del: upt_Suc)
  also have "\<dots> = map (\<lambda>k. build_all cls (take (nat page_size) (drop (k * nat page_size) docs))) [0..<?n]"
    using assms by (simp add: get_page_window del: of_nat_Suc)
  finally have "concat_pages
           (map (\<lambda>page. get_page cls (int page) page_size query_params array_contains test_mode w)
              [1..<Suc ?n]) = build_all cls (take (?n * nat page_size) docs)"
    by (simp add: concat_windows)
  moreover have "take (?n * nat page_size) docs = docs"
    using page_count_covers [OF assms(2), of "length docs"] by simp
  ultimately show ?thesis by simp
qed

theorem pages_cover_filtered_docs_witness:
  "concat_pages
     (map (\<lambda>page. get_page post_class (int page) 1 None (Some [(''tags'', VStr ''red'')])
                    (Some True) tagged_world)
        [1..<Suc (page_count 2 1)]) =
   Inr [post ''p1'' [''red'', ''blue''], post ''p3'' [''red'']]"
proof -
  let ?docs = "[model_dict (post ''p1'' [''red'', ''blue'']), model_dict (post ''p3'' [''red''])]"
  have m: "resolve_test_mode tagged_world (Some True)"
    by (simp add: post_defs)
  have p: "(1::int) \<le> 1"
    by simp
  have f: "filtered_docs (cache tagged_world) (get_collection_name post_class) None
             (Some [(''tags'', VStr ''red'')]) = Inr ?docs"
    by (simp add: filtered_docs_def post_defs)
  have n: "page_count (length ?docs) 1 = page_count 2 1"
    by (simp add: numeral_2_eq_2)
  have b: "build_all post_class ?docs = Inr [post ''p1'' [''red'', ''blue''], post ''p3'' [''red'']]"
    by (simp add: post_defs)
  from pages_cover_filtered_docs [OF m p f] show ?thesis
    unfolding n b .
qed

section \<open>The array-contains filter in test mode\<close>

lemma py_eq_VStr: "py_eq x (VStr s) \<longleftrightarrow> x = VStr s"
  by (cases x) auto

lemma contains_all_tag:
  "tags_is_list d \<Longrightarrow> contains_all d [(''tags'', VStr t)] = Inr (has_tag t d)"
  by (auto simp: tags_is_list_def has_tag_def list_ex_iff py_eq_VStr
           split: option.splits val.splits)

lemma filter_array_contains_tag:
  "\<forall>d\<in>set docs. tags_is_list d \<Longrightarrow>
   filter_array_contains [(''tags'', VStr t)] docs = Inr (filter (has_tag t) docs)"
  by (induction docs) (simp_all add: contains_all_tag del: contains_all.simps)

text \<open>
  C7, as amended. In test mode, on a collection whose documents all have a list
  \<open>tags\<close>, \<open>get_page(array_contains={"tags": "red"})\<close> returns the records of the first
  ten (the default page size) of the documents whose \<open>tags\<close> holds \<open>red\<close>, in stored
  order: all of them when there are at most ten.
\<close>

theorem get_page_tag_first_page:
  assumes "resolve_test_mode w test_mode"
    and "\<forall>d\<in>set (list_collection (cache w) (get_collection_name cls)). tags_is_list d"
  shows "get_page cls 1 10 None (Some [(''tags'', VStr ''red'')]) test_mode w =
           build_all cls
             (take 10 (filter (has_tag ''red'') (list_collection (cache w) (get_collection_name cls))))"
proof -
  let ?docs = "list_collection (cache w) (get_collection_name cls)"
  have "filtered_docs (cache w) (get_collection_name cls) None (Some [(''tags'', VStr ''red'')]) =
          Inr (filter (has_tag ''red'') ?docs)"
    using assms(2) by (simp add: filtered_docs_def query_collection_def filter_array_contains_tag)
  moreover have "py_slice 0 (0 + 10) (filter (has_tag ''red'') ?docs) =
          take (nat 10) (drop (nat 0) (filter (has_tag ''red'') ?docs))"
    by (rule py_slice_window) simp_all
  ultimately show ?thesis
    using assms(1) by (simp add: get_page_def)
qed

theorem get_page_tag_first_page_witness:
  "get_page post_class 1 10 None (Some [(''tags'', VStr ''red'')]) (Some True) tagged_world =
     Inr [post ''p1'' [''red'', ''blue''], post ''p3'' [''red'']]"
proof -
  have m: "resolve_test_mode tagged_world (Some True)"
    by (simp add: post_defs)
  have l: "\<forall>d\<in>set (list_collection (cache tagged_world) (get_collection_name post_class)).
             tags_is_list d"
    by (simp add: post_defs)
  from get_page_tag_first_page [OF m l] show ?thesis
    by (simp add: post_defs)
qed

text \<open>
  C7 as stated fails: of eleven stored documents that all hold \<open>red\<close> in \<open>tags\<close>, the
  call returns ten.
\<close>

theorem get_page_tag_not_whole_subset:
  "map_sum id length
     (get_page post_class 1 10 None (Some [(''tags'', VStr ''red'')]) (Some True) red_world) = Inr 10 \<and>
   length (filter (has_tag ''red'') (list_collection (cache red_world) (get_collection_name post_class))) = 11"
  by (simp add: get_page_def filtered_docs_def py_slice_def slice_index_def post_defs list_ex_iff)

section \<open>Fetching an id that is not stored\<close>

text \<open>
  C8. When no document is stored under the id (in the cache in test mode, in the live
  store in live mode), \<open>get_by_id\<close> returns \<open>None\<close>: the call does not raise.
\<close>

theorem get_by_id_absent:
  assumes "resolve_test_mode w test_mode \<longrightarrow>
             VStr doc_id \<notin> fst ` set (cache w (get_collection_name cls))"
    and "\<not> resolve_test_mode w test_mode \<longrightarrow>
             doc_id \<notin> fst ` set (db w (get_collection_name cls))"
  shows "get_by_id cls doc_id test_mode w = Inr None"
proof (cases "resolve_test_mode w test_mode")
  case True
  with assms have "get_document (cache w) (get_collection_name cls) (VStr doc_id) = None"
    by (simp add: get_document_def map_of_eq_None_iff)
  with True show ?thesis by (simp add: get_by_id_def)
next
  case False
  with assms have "db_get (db w) (get_collection_name cls) doc_id = None"
    by (simp add: db_get_def map_of_eq_None_iff)
  with False show ?thesis by (simp add: get_by_id_def)
qed

theorem get_by_id_absent_witness:
  "get_by_id item_class ''b'' (Some True) cached_world = Inr None \<and>
   get_by_id item_class ''b'' (Some False) cached_world = Inr None \<and>
   get_by_id item_class ''a'' (Some True) cached_world = Inr (Some (item (VStr ''a'') ''first''))"
proof -
  have t: "get_by_id item_class ''b'' (Some True) cached_world = Inr None"
    by (rule get_by_id_absent) (simp_all add: example_defs)
  have l: "get_by_id item_class ''b'' (Some False) cached_world = Inr None"
    by (rule get_by_id_absent) (simp_all add: example_defs)
  have p: "get_by_id item_class ''a'' (Some True) cached_world = Inr (Some (item (VStr ''a'') ''first''))"
    by (simp add: get_by_id_def example_defs)
  from t l p show ?thesis by simp
qed

section \<open>The exclusion list of \<open>merge\<close>\<close>

text \<open>
  C9. A live-mode call of \<open>merge\<close> whose update names only fields of the record (or
  excluded names) returns, and has extended the list passed as \<open>exclude_props\<close> in
  place: by \<open>created_at\<close>, preceded by \<open>id\<close> when \<open>overwrite_id\<close> is false. When the
  argument was left out, the list extended is the one default list object, and a
  later call that leaves the argument out runs with what has accumulated there: it
  assigns no \<open>created_at\<close>, and no \<open>id\<close> when the earlier call had \<open>overwrite_id\<close>
  false.
\<close>

theorem merge_live_extends_exclude_props:
  assumes "\<not> resolve_test_mode w test_mode"
    and "a = (case exclude_props of None \<Rightarrow> merge_default_exclude_props | Some b \<Rightarrow> b)"
    and "\<forall>k\<in>fst ` set update_data. k \<in> set (lists w a) \<or> has_field self k"
  shows "\<exists>self' w'.
           merge cls self update_data overwrite_id exclude_props test_mode w = Inr (self', w') \<and>
           lists w' a =
             lists w a @ (if overwrite_id then [''created_at''] else [''id'', ''created_at'']) \<and>
           (exclude_props = None \<and>
            merge later_cls later_self later_data later_overwrite None later_mode w' =
              Inr (later_self', later_w) \<longrightarrow>
              created_at later_self' = created_at later_self \<and>
              (\<not> overwrite_id \<longrightarrow> id_m later_self' = id_m later_self))"
proof -
  from merge_live_returns [OF assms(1) assms(3) [unfolded assms(2)]]
  obtain self' w' where
    m: "merge cls self update_data overwrite_id exclude_props test_mode w = Inr (self', w')"
    by blast
  from merge_live_result [OF assms(1) m] assms(2)
  have l: "lists w' a =
           lists w a @ (if overwrite_id then [''created_at''] else [''id'', ''created_at''])"
    by simp
  have "created_at later_self' = created_at later_self \<and>
        (\<not> overwrite_id \<longrightarrow> id_m later_self' = id_m later_self)"
    if n: "exclude_props = None"
      and later: "merge later_cls later_self later_data later_overwrite None later_mode w' =
                    Inr (later_self', later_w)"
  proof -
    from n assms(2) have "a = merge_default_exclude_props" by simp
    with l have "''created_at'' \<in> set (lists w' merge_default_exclude_props)"
      and "\<not> overwrite_id \<longrightarrow> ''id'' \<in> set (lists w' merge_default_exclude_props)"
      by auto
    with merge_keeps_excluded [OF later] show ?thesis by simp
  qed
  with m l show ?thesis by blast
qed

theorem merge_live_extends_exclude_props_witness:
  "merge item_class (item (VStr ''a'') ''n'') [(''name'', VStr ''m'')] False None (Some False) empty_world =
     Inr (item (VStr ''a'') ''m'', after_first_merge) \<and>
   lists empty_world merge_default_exclude_props = [] \<and>
   lists after_first_merge merge_default_exclude_props = [''id'', ''created_at''] \<and>
   merge item_class (item (VStr ''a'') ''m'') [(''created_at'', VTime 5), (''id'', VStr ''x'')]
       True None (Some True) after_first_merge =
     Inr (item (VStr ''a'') ''m'',
          after_first_merge\<lparr>cache := (\<lambda>_. [])(''Items'' :=
             [(VStr ''a'', model_dict (item (VStr ''a'') ''m''))])\<rparr>)"
proof -
  have live: "\<not> resolve_test_mode empty_world (Some False)"
    by (simp add: resolve_test_mode_def)
  have fields: "\<forall>k\<in>fst ` set [(''name'', VStr ''m'')].
      k \<in> set (lists empty_world (case None of None \<Rightarrow> merge_default_exclude_props | Some b \<Rightarrow> b)) \<or>
      has_field (item (VStr ''a'') ''n'') k"
    by (simp add: has_field_def example_defs)
  have first: "merge item_class (item (VStr ''a'') ''n'') [(''name'', VStr ''m'')] False None
      (Some False) empty_world = Inr (item (VStr ''a'') ''m'', after_first_merge)"
    by (simp add: merge_def setattr_m_def after_first_merge_def merge_default_exclude_props_def
        example_defs)
  have second: "merge item_class (item (VStr ''a'') ''m'') [(''created_at'', VTime 5), (''id'', VStr ''x'')]
       True None (Some True) after_first_merge =
     Inr (item (VStr ''a'') ''m'',
          after_first_merge\<lparr>cache := (\<lambda>_. [])(''Items'' :=
             [(VStr ''a'', model_dict (item (VStr ''a'') ''m''))])\<rparr>)"
    by (simp add: merge_def setattr_m_def after_first_merge_def merge_default_exclude_props_def
        update_document_def example_defs)
  from merge_live_extends_exclude_props [OF live refl fields,
      where cls = item_class and overwrite_id = False
        and later_cls = item_class and later_self = "item (VStr ''a'') ''m''"
        and later_data = "[(''created_at'', VTime 5), (''id'', VStr ''x'')]"
        and later_overwrite = True and later_mode = "Some True"
        and later_self' = "item (VStr ''a'') ''m''"
        and later_w = "after_first_merge\<lparr>cache := (\<lambda>_. [])(''Items'' :=
             [(VStr ''a'', model_dict (item (VStr ''a'') ''m''))])\<rparr>"]
  obtain self' w' where
    m: "merge item_class (item (VStr ''a'') ''n'') [(''name'', VStr ''m'')] False None (Some False)
          empty_world = Inr (self', w')"
    and l: "lists w' merge_default_exclude_props =
          lists empty_world merge_default_exclude_props @ [''id'', ''created_at'']"
    by auto
  from m first have "w' = after_first_merge" by simp
  with l have "lists after_first_merge merge_default_exclude_props =
      lists empty_world merge_default_exclude_props @ [''id'', ''created_at'']"
    by simp
  moreover have "lists empty_world merge_default_exclude_props = []"
    by (simp add: empty_world_def)
  ultimately show ?thesis using first second by simp
qed

section \<open>Batch fetch in test mode\<close>

lemma get_by_ids_cached_acc:
  "get_by_ids_cached cls c coll ids docs =
     (case build_all cls (List.map_filter
             (\<lambda>i. case get_document c coll (VStr i) of
                    None \<Rightarrow> None | Some d \<Rightarrow> if d \<noteq> [] then Some d else None) ids) of
        Inl e \<Rightarrow> Inl e
      | Inr ms \<Rightarrow> Inr (docs @ ms))"
proof (induction ids arbitrary: docs)
  case Nil
  then show ?case by (simp add: List.map_filter_simps)
next
  case (Cons i ids)
  show ?case
  proof (cases "get_document c coll (VStr i)")
    case None
    then show ?thesis using Cons.IH by (simp add: List.map_filter_simps)
  next
    case (Some d)
    show ?thesis
    proof (cases "d = []")
      case True
      with Some show ?thesis using Cons.IH by (simp add: List.map_filter_simps)
    next
      case False
      with Some show ?thesis using Cons.IH
        by (simp add: List.map_filter_simps split: sum.splits)
    qed
  qed
qed

text \<open>
  C10. In test mode \<open>get_by_ids\<close> goes through the ids in the order given, skips every
  id under which the cache holds no (or an empty) field mapping, and builds a record
  from each mapping found: the records come in the relative order of their ids in
  the input list, and a failing construction raises at the first such id.
\<close>

theorem get_by_ids_keeps_order:
  "resolve_test_mode w test_mode \<Longrightarrow>
   get_by_ids cls doc_ids test_mode w =
     build_all cls (List.map_filter
        (\<lambda>i. case get_document (cache w) (get_collection_name cls) (VStr i) of
               None \<Rightarrow> None | Some d \<Rightarrow> if d \<noteq> [] then Some d else None) doc_ids)"
  by (simp add: get_by_ids_def get_by_ids_cached_acc split: sum.splits)

theorem get_by_ids_keeps_order_witness:
  "resolve_test_mode cached_world None \<and>
   get_by_ids item_class [''c'', ''b'', ''a''] None cached_world =
     Inr [item (VStr ''c'') ''third'', item (VStr ''a'') ''first'']"
proof -
  have h: "resolve_test_mode cached_world None"
    by (simp add: example_defs)
  from get_by_ids_keeps_order [OF h, of item_class "[''c'', ''b'', ''a'']"] h
  show ?thesis
    by (simp add: example_defs List.map_filter_simps)
qed

end
